theory Spec2Isabelle
  imports Complex_Main "HOL-Library.Multiset"
begin

section \<open>Data model\<close>

text \<open>
  The tables of \<^verbatim>\<open>models/product.py\<close>, one record per mapped class, one field per column
  the ledger rules read or write. Python integers are unbounded, so integer columns are
  \<^typ>\<open>int\<close>. The \<^verbatim>\<open>Float\<close> columns (prices, subtotals, totals) are modelled as
  \<^typ>\<open>real\<close>: the rounding of binary floating point is not represented. A nullable column
  is an \<^typ>\<open>'a option\<close>. Timestamps are seconds on the server's clock, a \<^typ>\<open>nat\<close>; of the
  timestamp columns only \<^verbatim>\<open>movement_date\<close> is kept, the one a query orders by.
\<close>

record Product =
  p_id :: int
  p_name :: string
  p_description :: "string option"
  p_price :: real
  p_quantity :: int

record StockMovement =
  sm_id :: int
  sm_product_id :: int
  sm_quantity_change :: int
  sm_movement_type :: string
  sm_reference :: "string option"
  sm_notes :: "string option"
  sm_created_by :: "int option"
  sm_movement_date :: nat

record Sale =
  sale_id :: int
  sale_customer_name :: "string option"
  sale_total_amount :: real
  sale_payment_method :: string
  sale_created_by :: int

record SaleItem =
  si_id :: int
  si_sale_id :: int
  si_product_id :: int
  si_quantity :: int
  si_unit_price :: real
  si_subtotal :: real

record Purchase =
  pu_id :: int
  pu_supplier_name :: string
  pu_total_amount :: real
  pu_reference :: "string option"
  pu_created_by :: int

record PurchaseItem =
  pi_id :: int
  pi_purchase_id :: int
  pi_product_id :: int
  pi_quantity :: int
  pi_unit_price :: real
  pi_subtotal :: real

text \<open>The request bodies of \<^verbatim>\<open>schemas/product.py\<close>.\<close>

record ProductCreate =
  pc_name :: string
  pc_description :: "string option"
  pc_price :: real
  pc_quantity :: int

text \<open>
  \<^verbatim>\<open>ProductUpdate\<close> is read through \<^verbatim>\<open>dict(exclude_unset=True)\<close>, which tells a field
  the request left out (\<open>Unset\<close>) from one it carried (\<open>Given\<close>), possibly as an explicit
  null (\<open>Given None\<close>).
\<close>

datatype 'a field = Unset | Given 'a

record ProductUpdate =
  upd_name :: "string option field"
  upd_description :: "string option field"
  upd_price :: "real option field"
  upd_quantity :: "int option field"

record StockMovementCreate =
  smc_product_id :: int
  smc_quantity_change :: int
  smc_movement_type :: string
  smc_reference :: "string option"
  smc_notes :: "string option"

record SaleItemCreate =
  sic_product_id :: int
  sic_quantity :: int

record SaleCreate =
  sc_customer_name :: "string option"
  sc_payment_method :: string
  sc_items :: "SaleItemCreate list"

record PurchaseItemCreate =
  pic_product_id :: int
  pic_quantity :: int
  pic_unit_price :: real

record PurchaseCreate =
  puc_supplier_name :: string
  puc_reference :: "string option"
  puc_items :: "PurchaseItemCreate list"

text \<open>
  The \<^verbatim>\<open>Field(...)\<close> constraints of the schemas. The framework checks them before a
  handler runs and answers 422 itself when one fails.
\<close>

definition valid_ProductCreate :: "ProductCreate \<Rightarrow> bool" where
  "valid_ProductCreate d \<longleftrightarrow>
     1 \<le> length (pc_name d) \<and> length (pc_name d) \<le> 100 \<and> 0 < pc_price d \<and> 0 \<le> pc_quantity d"

definition valid_ProductUpdate :: "ProductUpdate \<Rightarrow> bool" where
  "valid_ProductUpdate d \<longleftrightarrow>
     (case upd_name d of Given (Some n) \<Rightarrow> 1 \<le> length n \<and> length n \<le> 100 | _ \<Rightarrow> True) \<and>
     (case upd_price d of Given (Some x) \<Rightarrow> 0 < x | _ \<Rightarrow> True) \<and>
     (case upd_quantity d of Given (Some q) \<Rightarrow> 0 \<le> q | _ \<Rightarrow> True)"

definition valid_StockMovementCreate :: "StockMovementCreate \<Rightarrow> bool" where
  "valid_StockMovementCreate d \<longleftrightarrow>
     1 \<le> length (smc_movement_type d) \<and> length (smc_movement_type d) \<le> 50"

definition valid_SaleItemCreate :: "SaleItemCreate \<Rightarrow> bool" where
  "valid_SaleItemCreate i \<longleftrightarrow> 0 < sic_quantity i"

definition valid_SaleCreate :: "SaleCreate \<Rightarrow> bool" where
  "valid_SaleCreate d \<longleftrightarrow>
     1 \<le> length (sc_payment_method d) \<and> length (sc_payment_method d) \<le> 50 \<and>
     list_all valid_SaleItemCreate (sc_items d)"

definition valid_PurchaseItemCreate :: "PurchaseItemCreate \<Rightarrow> bool" where
  "valid_PurchaseItemCreate i \<longleftrightarrow> 0 < pic_quantity i \<and> 0 < pic_unit_price i"

definition valid_PurchaseCreate :: "PurchaseCreate \<Rightarrow> bool" where
  "valid_PurchaseCreate d \<longleftrightarrow>
     1 \<le> length (puc_supplier_name d) \<and> length (puc_supplier_name d) \<le> 100 \<and>
     list_all valid_PurchaseItemCreate (puc_items d)"

section \<open>The store and the session\<close>

text \<open>
  The stored data is one list of rows per table, in insertion order. A session holds the
  data as committed and the data as its open transaction sees it (flushed and unflushed
  changes alike); \<open>commit_log\<close> keeps every state a \<^verbatim>\<open>db.commit()\<close> of the session has
  made durable, oldest first, so that the units of work of a handler can be told apart.
\<close>

record Database =
  products :: "Product list"
  stock_movements :: "StockMovement list"
  sales :: "Sale list"
  sale_items :: "SaleItem list"
  purchases :: "Purchase list"
  purchase_items :: "PurchaseItem list"

record Session =
  committed :: Database
  pending :: Database
  commit_log :: "Database list"

definition empty_database :: Database where
  "empty_database =
     \<lparr>products = [], stock_movements = [], sales = [], sale_items = [],
      purchases = [], purchase_items = []\<rparr>"

definition commit :: "Session \<Rightarrow> Session" where
  "commit db = db\<lparr>committed := pending db, commit_log := commit_log db @ [pending db]\<rparr>"

definition rollback :: "Session \<Rightarrow> Session" where
  "rollback db = db\<lparr>pending := committed db\<rparr>"

text \<open>An autoincrement primary key: one more than the largest key of the table.\<close>

definition next_id :: "int list \<Rightarrow> int" where
  "next_id ids = fold max ids 0 + 1"

text \<open>\<^verbatim>\<open>db.add(row)\<close>, one function per table.\<close>

definition add_product :: "Product \<Rightarrow> Session \<Rightarrow> Session" where
  "add_product r db = db\<lparr>pending := (pending db)\<lparr>products := products (pending db) @ [r]\<rparr>\<rparr>"

definition add_stock_movement :: "StockMovement \<Rightarrow> Session \<Rightarrow> Session" where
  "add_stock_movement r db =
     db\<lparr>pending := (pending db)\<lparr>stock_movements := stock_movements (pending db) @ [r]\<rparr>\<rparr>"

definition add_sale :: "Sale \<Rightarrow> Session \<Rightarrow> Session" where
  "add_sale r db = db\<lparr>pending := (pending db)\<lparr>sales := sales (pending db) @ [r]\<rparr>\<rparr>"

definition add_sale_item :: "SaleItem \<Rightarrow> Session \<Rightarrow> Session" where
  "add_sale_item r db =
     db\<lparr>pending := (pending db)\<lparr>sale_items := sale_items (pending db) @ [r]\<rparr>\<rparr>"

definition add_purchase :: "Purchase \<Rightarrow> Session \<Rightarrow> Session" where
  "add_purchase r db = db\<lparr>pending := (pending db)\<lparr>purchases := purchases (pending db) @ [r]\<rparr>\<rparr>"

definition add_purchase_item :: "PurchaseItem \<Rightarrow> Session \<Rightarrow> Session" where
  "add_purchase_item r db =
     db\<lparr>pending := (pending db)\<lparr>purchase_items := purchase_items (pending db) @ [r]\<rparr>\<rparr>"

text \<open>
  Assigning to attributes of a loaded \<^verbatim>\<open>Product\<close> object: the row with that primary key
  is rewritten (\<^verbatim>\<open>UPDATE products SET ... WHERE id = ?\<close>).
\<close>

definition update_product_row :: "int \<Rightarrow> (Product \<Rightarrow> Product) \<Rightarrow> Session \<Rightarrow> Session" where
  "update_product_row i f db =
     db\<lparr>pending := (pending db)\<lparr>products :=
       map (\<lambda>r. if p_id r = i then f r else r) (products (pending db))\<rparr>\<rparr>"

definition update_sale_row :: "int \<Rightarrow> (Sale \<Rightarrow> Sale) \<Rightarrow> Session \<Rightarrow> Session" where
  "update_sale_row i f db =
     db\<lparr>pending := (pending db)\<lparr>sales :=
       map (\<lambda>r. if sale_id r = i then f r else r) (sales (pending db))\<rparr>\<rparr>"

definition update_purchase_row :: "int \<Rightarrow> (Purchase \<Rightarrow> Purchase) \<Rightarrow> Session \<Rightarrow> Session" where
  "update_purchase_row i f db =
     db\<lparr>pending := (pending db)\<lparr>purchases :=
       map (\<lambda>r. if pu_id r = i then f r else r) (purchases (pending db))\<rparr>\<rparr>"

text \<open>\<^verbatim>\<open>db.query(Product).filter(Product.id == i).first()\<close> and the same by name.\<close>

definition product_by_id :: "int \<Rightarrow> Session \<Rightarrow> Product option" where
  "product_by_id i db = find (\<lambda>r. p_id r = i) (products (pending db))"

definition product_by_name :: "string \<Rightarrow> Session \<Rightarrow> Product option" where
  "product_by_name n db = find (\<lambda>r. p_name r = n) (products (pending db))"

text \<open>
  What a handler raises. \<open>NotFound\<close> is the \<^verbatim>\<open>HTTPException\<close> with status 404,
  \<open>InsufficientStock\<close>, \<open>DuplicateName\<close> and \<open>EmptyItems\<close> are the three with status 400,
  told apart by their detail text; \<open>TypeError\<close> and \<open>IntegrityError\<close> are the exceptions
  that Python and the store raise and the application answers with status 500.
\<close>

datatype error = NotFound | InsufficientStock | DuplicateName | EmptyItems
  | TypeError | IntegrityError

fun status_code :: "error \<Rightarrow> nat" where
  "status_code NotFound = 404"
| "status_code InsufficientStock = 400"
| "status_code DuplicateName = 400"
| "status_code EmptyItems = 400"
| "status_code TypeError = 500"
| "status_code IntegrityError = 500"

text \<open>Python's \<^verbatim>\<open>str\<close> of an integer, as the f-strings of the handlers render it.\<close>

definition digit_char :: "nat \<Rightarrow> char" where
  "digit_char n = ''0123456789'' ! n"

fun str_nat :: "nat \<Rightarrow> string" where
  "str_nat n =
     (if n < 10 then [digit_char n]
      else str_nat (n div 10) @ [digit_char (n mod 10)])"

declare str_nat.simps [simp del]

definition str_int :: "int \<Rightarrow> string" where
  "str_int i = (if i < 0 then CHR ''-'' # str_nat (nat (- i)) else str_nat (nat i))"

section \<open>Handlers of routes/products.py\<close>

text \<open>
  Each handler takes the request body, the id of the current user, the server's clock
  and the session, and returns what it returns or raises together with the session as
  it leaves it.
\<close>

definition create_stock_movement ::
  "StockMovementCreate \<Rightarrow> int \<Rightarrow> nat \<Rightarrow> Session \<Rightarrow> (error + StockMovement) \<times> Session" where
  "create_stock_movement movement_data current_user now db =
     (case product_by_id (smc_product_id movement_data) db of
        None \<Rightarrow> (Inl NotFound, db)
      | Some product \<Rightarrow>
          if smc_quantity_change movement_data < 0 \<and>
             p_quantity product + smc_quantity_change movement_data < 0
          then (Inl InsufficientStock, db)
          else
            let db_movement =
                  \<lparr>sm_id = next_id (map sm_id (stock_movements (pending db))),
                   sm_product_id = smc_product_id movement_data,
                   sm_quantity_change = smc_quantity_change movement_data,
                   sm_movement_type = smc_movement_type movement_data,
                   sm_reference = smc_reference movement_data,
                   sm_notes = smc_notes movement_data,
                   sm_created_by = Some current_user,
                   sm_movement_date = now\<rparr>;
                db1 = update_product_row (p_id product)
                        (\<lambda>r. r\<lparr>p_quantity := p_quantity product + smc_quantity_change movement_data\<rparr>) db;
                db2 = add_stock_movement db_movement db1;
                db3 = commit db2
            in (Inr db_movement, db3))"


definition create_product ::
  "ProductCreate \<Rightarrow> int \<Rightarrow> nat \<Rightarrow> Session \<Rightarrow> (error + Product) \<times> Session" where
  "create_product product_data current_user now db =
     (case product_by_name (pc_name product_data) db of
        Some existing_product \<Rightarrow> (Inl DuplicateName, db)
      | None \<Rightarrow>
          let db_product =
                \<lparr>p_id = next_id (map p_id (products (pending db))),
                 p_name = pc_name product_data,
                 p_description = pc_description product_data,
                 p_price = pc_price product_data,
                 p_quantity = pc_quantity product_data\<rparr>;
              db1 = add_product db_product db;
              db2 = commit db1
          in if pc_quantity product_data > 0
             then
               let stock_movement =
                     \<lparr>sm_id = next_id (map sm_id (stock_movements (pending db2))),
                      sm_product_id = p_id db_product,
                      sm_quantity_change = pc_quantity product_data,
                      sm_movement_type = ''inventario_inicial'',
                      sm_reference = None,
                      sm_notes = Some ''Inventario inicial al crear el producto'',
                      sm_created_by = Some current_user,
                      sm_movement_date = now\<rparr>;
                   db3 = add_stock_movement stock_movement db2;
                   db4 = commit db3
               in (Inr db_product, db4)
             else (Inr db_product, db2))"

text \<open>
  \<^verbatim>\<open>update_product\<close>. The name check runs only for a name that is given, not empty and
  different from the current one. The loop of \<^verbatim>\<open>setattr\<close> is \<open>setattrs\<close>. An explicit null
  for the quantity reaches \<^verbatim>\<open>None - old_quantity\<close>, a \<^verbatim>\<open>TypeError\<close>; an explicit null for
  the name or the price reaches the commit, where the columns' \<^verbatim>\<open>nullable=False\<close> refuses
  it (\<open>commit_product\<close> is the handler's \<^verbatim>\<open>db.commit()\<close>, refresh and return). In both
  cases the handler is left by the exception before anything is written to the store, so
  the session is returned as it was received.
\<close>

definition name_taken :: "ProductUpdate \<Rightarrow> Product \<Rightarrow> Session \<Rightarrow> bool" where
  "name_taken product_data product db =
     (case upd_name product_data of
        Given (Some n) \<Rightarrow> n \<noteq> [] \<and> n \<noteq> p_name product \<and> product_by_name n db \<noteq> None
      | _ \<Rightarrow> False)"

definition setattrs :: "ProductUpdate \<Rightarrow> Product \<Rightarrow> Product" where
  "setattrs product_data product =
     product
       \<lparr>p_name := (case upd_name product_data of Given (Some n) \<Rightarrow> n | _ \<Rightarrow> p_name product),
        p_description :=
          (case upd_description product_data of Given v \<Rightarrow> v | Unset \<Rightarrow> p_description product),
        p_price := (case upd_price product_data of Given (Some x) \<Rightarrow> x | _ \<Rightarrow> p_price product),
        p_quantity :=
          (case upd_quantity product_data of Given (Some q) \<Rightarrow> q | _ \<Rightarrow> p_quantity product)\<rparr>"

definition commit_product ::
  "ProductUpdate \<Rightarrow> Product \<Rightarrow> Session \<Rightarrow> Session \<Rightarrow> (error + Product) \<times> Session" where
  "commit_product product_data product db db2 =
     (if upd_name product_data = Given None \<or> upd_price product_data = Given None
      then (Inl IntegrityError, db)
      else (Inr (setattrs product_data product), commit db2))"

definition update_product ::
  "int \<Rightarrow> ProductUpdate \<Rightarrow> int \<Rightarrow> nat \<Rightarrow> Session \<Rightarrow> (error + Product) \<times> Session" where
  "update_product product_id product_data current_user now db =
     (case product_by_id product_id db of
        None \<Rightarrow> (Inl NotFound, db)
      | Some product \<Rightarrow>
          if name_taken product_data product db then (Inl DuplicateName, db)
          else
            (let old_quantity = p_quantity product;
                 db1 = update_product_row (p_id product) (setattrs product_data) db
             in (case upd_quantity product_data of
                   Unset \<Rightarrow> commit_product product_data product db db1
                 | Given None \<Rightarrow> (Inl TypeError, db)
                 | Given (Some new_quantity) \<Rightarrow>
                     (if new_quantity \<noteq> old_quantity
                      then
                        (let quantity_change = new_quantity - old_quantity
                         in if quantity_change \<noteq> 0
                            then
                              (let stock_movement =
                                     \<lparr>sm_id = next_id (map sm_id (stock_movements (pending db1))),
                                      sm_product_id = p_id product,
                                      sm_quantity_change = quantity_change,
                                      sm_movement_type = ''ajuste'',
                                      sm_reference = None,
                                      sm_notes = Some (''Ajuste manual: '' @ str_int old_quantity
                                        @ '' -> '' @ str_int new_quantity),
                                      sm_created_by = Some current_user,
                                      sm_movement_date = now\<rparr>
                               in commit_product product_data product db
                                    (add_stock_movement stock_movement db1))
                            else commit_product product_data product db db1)
                      else commit_product product_data product db db1))))"



text \<open>
  \<^verbatim>\<open>create_sale\<close>: the loop over the lines, then the handler. The loop carries the running
  total; a line that fails rolls the session back and raises.
\<close>

fun sale_lines ::
  "int \<Rightarrow> int \<Rightarrow> nat \<Rightarrow> SaleItemCreate list \<Rightarrow> real \<Rightarrow> Session \<Rightarrow> (error + real) \<times> Session" where
  "sale_lines sale current_user now [] total_amount db = (Inr total_amount, db)"
| "sale_lines sale current_user now (item_data # rest) total_amount db =
     (case product_by_id (sic_product_id item_data) db of
        None \<Rightarrow> (Inl NotFound, rollback db)
      | Some product \<Rightarrow>
          if p_quantity product < sic_quantity item_data
          then (Inl InsufficientStock, rollback db)
          else
            let subtotal = p_price product * of_int (sic_quantity item_data);
                sale_item =
                  \<lparr>si_id = next_id (map si_id (sale_items (pending db))),
                   si_sale_id = sale,
                   si_product_id = p_id product,
                   si_quantity = sic_quantity item_data,
                   si_unit_price = p_price product,
                   si_subtotal = subtotal\<rparr>;
                db1 = add_sale_item sale_item db;
                db2 = update_product_row (p_id product)
                        (\<lambda>r. r\<lparr>p_quantity := p_quantity product - sic_quantity item_data\<rparr>) db1;
                stock_movement =
                  \<lparr>sm_id = next_id (map sm_id (stock_movements (pending db2))),
                   sm_product_id = p_id product,
                   sm_quantity_change = - sic_quantity item_data,
                   sm_movement_type = ''venta'',
                   sm_reference = Some (''Venta #'' @ str_int sale),
                   sm_notes = None,
                   sm_created_by = Some current_user,
                   sm_movement_date = now\<rparr>;
                db3 = add_stock_movement stock_movement db2
            in sale_lines sale current_user now rest (total_amount + subtotal) db3)"

definition create_sale ::
  "SaleCreate \<Rightarrow> int \<Rightarrow> nat \<Rightarrow> Session \<Rightarrow> (error + Sale) \<times> Session" where
  "create_sale sale_data current_user now db =
     (if sc_items sale_data = [] then (Inl EmptyItems, db)
      else
        let db_sale =
              \<lparr>sale_id = next_id (map sale_id (sales (pending db))),
               sale_customer_name = sc_customer_name sale_data,
               sale_total_amount = 0,
               sale_payment_method = sc_payment_method sale_data,
               sale_created_by = current_user\<rparr>;
            db1 = add_sale db_sale db
        in case sale_lines (sale_id db_sale) current_user now (sc_items sale_data) 0 db1 of
             (Inl e, db2) \<Rightarrow> (Inl e, db2)
           | (Inr total_amount, db2) \<Rightarrow>
               let db3 = update_sale_row (sale_id db_sale)
                           (\<lambda>r. r\<lparr>sale_total_amount := total_amount\<rparr>) db2;
                   db4 = commit db3
               in (Inr (db_sale\<lparr>sale_total_amount := total_amount\<rparr>), db4))"

text \<open>\<^verbatim>\<open>create_purchase\<close>, the same shape without the stock check.\<close>

fun purchase_lines ::
  "int \<Rightarrow> int \<Rightarrow> nat \<Rightarrow> PurchaseItemCreate list \<Rightarrow> real \<Rightarrow> Session \<Rightarrow> (error + real) \<times> Session" where
  "purchase_lines purchase current_user now [] total_amount db = (Inr total_amount, db)"
| "purchase_lines purchase current_user now (item_data # rest) total_amount db =
     (case product_by_id (pic_product_id item_data) db of
        None \<Rightarrow> (Inl NotFound, rollback db)
      | Some product \<Rightarrow>
          let subtotal = pic_unit_price item_data * of_int (pic_quantity item_data);
              purchase_item =
                \<lparr>pi_id = next_id (map pi_id (purchase_items (pending db))),
                 pi_purchase_id = purchase,
                 pi_product_id = p_id product,
                 pi_quantity = pic_quantity item_data,
                 pi_unit_price = pic_unit_price item_data,
                 pi_subtotal = subtotal\<rparr>;
              db1 = add_purchase_item purchase_item db;
              db2 = update_product_row (p_id product)
                      (\<lambda>r. r\<lparr>p_quantity := p_quantity product + pic_quantity item_data\<rparr>) db1;
              stock_movement =
                \<lparr>sm_id = next_id (map sm_id (stock_movements (pending db2))),
                 sm_product_id = p_id product,
                 sm_quantity_change = pic_quantity item_data,
                 sm_movement_type = ''compra'',
                 sm_reference = Some (''Compra #'' @ str_int purchase),
                 sm_notes = None,
                 sm_created_by = Some current_user,
                 sm_movement_date = now\<rparr>;
              db3 = add_stock_movement stock_movement db2
          in purchase_lines purchase current_user now rest (total_amount + subtotal) db3)"

definition create_purchase ::
  "PurchaseCreate \<Rightarrow> int \<Rightarrow> nat \<Rightarrow> Session \<Rightarrow> (error + Purchase) \<times> Session" where
  "create_purchase purchase_data current_user now db =
     (if puc_items purchase_data = [] then (Inl EmptyItems, db)
      else
        let db_purchase =
              \<lparr>pu_id = next_id (map pu_id (purchases (pending db))),
               pu_supplier_name = puc_supplier_name purchase_data,
               pu_total_amount = 0,
               pu_reference = puc_reference purchase_data,
               pu_created_by = current_user\<rparr>;
            db1 = add_purchase db_purchase db
        in case purchase_lines (pu_id db_purchase) current_user now (puc_items purchase_data) 0 db1 of
             (Inl e, db2) \<Rightarrow> (Inl e, db2)
           | (Inr total_amount, db2) \<Rightarrow>
               let db3 = update_purchase_row (pu_id db_purchase)
                           (\<lambda>r. r\<lparr>pu_total_amount := total_amount\<rparr>) db2;
                   db4 = commit db3
               in (Inr (db_purchase\<lparr>pu_total_amount := total_amount\<rparr>), db4))"

section \<open>Requests\<close>

text \<open>
  Modelled from the spec: \<^verbatim>\<open>config/db.py\<close>, whose \<^verbatim>\<open>get_db\<close> hands every request its
  session, is not among the sources. Following the spec's "any failure after partial work
  triggers a full rollback" and "the relational store is the single source of truth", a
  request starts a session on the stored data (\<open>open_session\<close>) and what the session has not
  committed when the request ends is dropped: the stored data afterwards is the
  session's committed data.
\<close>

definition open_session :: "Database \<Rightarrow> Session" where
  "open_session d = \<lparr>committed = d, pending = d, commit_log = []\<rparr>"

datatype request =
    POST_products ProductCreate
  | PUT_products int ProductUpdate
  | POST_stock_movements StockMovementCreate
  | POST_sales SaleCreate
  | POST_purchases PurchaseCreate

text \<open>
  One request against the stored data: the framework validates the body (and the path
  parameter, \<^verbatim>\<open>ge=1\<close>), the handler runs in a fresh session, the committed data remains.
\<close>

fun serve :: "request \<Rightarrow> int \<Rightarrow> nat \<Rightarrow> Database \<Rightarrow> Database" where
  "serve (POST_products body) current_user now d =
     (if valid_ProductCreate body
      then committed (snd (create_product body current_user now (open_session d))) else d)"
| "serve (PUT_products product_id body) current_user now d =
     (if 1 \<le> product_id \<and> valid_ProductUpdate body
      then committed (snd (update_product product_id body current_user now (open_session d))) else d)"
| "serve (POST_stock_movements body) current_user now d =
     (if valid_StockMovementCreate body
      then committed (snd (create_stock_movement body current_user now (open_session d))) else d)"
| "serve (POST_sales body) current_user now d =
     (if valid_SaleCreate body
      then committed (snd (create_sale body current_user now (open_session d))) else d)"
| "serve (POST_purchases body) current_user now d =
     (if valid_PurchaseCreate body
      then committed (snd (create_purchase body current_user now (open_session d))) else d)"

text \<open>A sequence of requests, each with its user and its time, served one after another.\<close>

fun run :: "(request \<times> int \<times> nat) list \<Rightarrow> Database \<Rightarrow> Database" where
  "run [] d = d"
| "run ((rq, current_user, now) # rest) d = run rest (serve rq current_user now d)"

section \<open>Notions the properties are stated with\<close>

text \<open>The sum of the deltas of all movements of a product.\<close>

definition movement_total :: "int \<Rightarrow> Database \<Rightarrow> int" where
  "movement_total i d =
     sum_list (map sm_quantity_change (filter (\<lambda>m. sm_product_id m = i) (stock_movements d)))"

text \<open>
  The ledger is consistent when every product's quantity is the sum of its movements
  and every movement belongs to a product of the table.
\<close>

definition ledger_consistent :: "Database \<Rightarrow> bool" where
  "ledger_consistent d \<longleftrightarrow>
     list_all (\<lambda>p. p_quantity p = movement_total (p_id p) d) (products d) \<and>
     list_all (\<lambda>m. sm_product_id m \<in> set (map p_id (products d))) (stock_movements d)"

text \<open>What the lines of a sale ask of one product, in total.\<close>

definition requested :: "int \<Rightarrow> SaleItemCreate list \<Rightarrow> int" where
  "requested i items =
     sum_list (map sic_quantity (filter (\<lambda>item. sic_product_id item = i) items))"

text \<open>
  Every line names a product of the table whose quantity covers all that the lines of
  the sale ask of it.
\<close>

definition sale_lines_ok :: "SaleItemCreate list \<Rightarrow> Database \<Rightarrow> bool" where
  "sale_lines_ok items d \<longleftrightarrow>
     list_all
       (\<lambda>item. case find (\<lambda>r. p_id r = sic_product_id item) (products d) of
                 None \<Rightarrow> False
               | Some product \<Rightarrow> requested (sic_product_id item) items \<le> p_quantity product)
       items"

text \<open>The price a product has in the table, if it is there.\<close>

definition current_price :: "int \<Rightarrow> Database \<Rightarrow> real option" where
  "current_price i d = map_option p_price (find (\<lambda>r. p_id r = i) (products d))"

definition product_exists :: "int \<Rightarrow> Database \<Rightarrow> bool" where
  "product_exists i d \<longleftrightarrow> find (\<lambda>r. p_id r = i) (products d) \<noteq> None"




section \<open>Example data\<close>

text \<open>
  A store with product A (id 1, price 10, quantity 3) and product B (id 2, price 5,
  quantity 4), each with the movement that its creation wrote.
\<close>

definition example_database :: Database where
  "example_database =
     \<lparr>products =
        [\<lparr>p_id = 1, p_name = ''A'', p_description = None, p_price = 10, p_quantity = 3\<rparr>,
         \<lparr>p_id = 2, p_name = ''B'', p_description = None, p_price = 5, p_quantity = 4\<rparr>],
      stock_movements =
        [\<lparr>sm_id = 1, sm_product_id = 1, sm_quantity_change = 3,
          sm_movement_type = ''inventario_inicial'', sm_reference = None,
          sm_notes = Some ''Inventario inicial al crear el producto'',
          sm_created_by = Some 7, sm_movement_date = 100\<rparr>,
         \<lparr>sm_id = 2, sm_product_id = 2, sm_quantity_change = 4,
          sm_movement_type = ''inventario_inicial'', sm_reference = None,
          sm_notes = Some ''Inventario inicial al crear el producto'',
          sm_created_by = Some 7, sm_movement_date = 200\<rparr>],
      sales = [], sale_items = [], purchases = [], purchase_items = []\<rparr>"

definition example_sale :: "(int \<times> int) list \<Rightarrow> SaleCreate" where
  "example_sale lines =
     \<lparr>sc_customer_name = None, sc_payment_method = ''efectivo'',
      sc_items = map (\<lambda>(i, q). \<lparr>sic_product_id = i, sic_quantity = q\<rparr>) lines\<rparr>"

definition example_purchase :: "(int \<times> int \<times> real) list \<Rightarrow> PurchaseCreate" where
  "example_purchase lines =
     \<lparr>puc_supplier_name = ''S'', puc_reference = None,
      puc_items = map (\<lambda>(i, q, x). \<lparr>pic_product_id = i, pic_quantity = q, pic_unit_price = x\<rparr>) lines\<rparr>"

definition example_movement :: "int \<Rightarrow> int \<Rightarrow> StockMovementCreate" where
  "example_movement i delta =
     \<lparr>smc_product_id = i, smc_quantity_change = delta, smc_movement_type = ''ajuste'',
      smc_reference = None, smc_notes = None\<rparr>"

definition example_product :: "string \<Rightarrow> int \<Rightarrow> ProductCreate" where
  "example_product n q = \<lparr>pc_name = n, pc_description = None, pc_price = 10, pc_quantity = q\<rparr>"

definition example_adjustment :: "int \<Rightarrow> ProductUpdate" where
  "example_adjustment q =
     \<lparr>upd_name = Unset, upd_description = Unset, upd_price = Unset, upd_quantity = Given (Some q)\<rparr>"

text \<open>
  A day in an empty store: product A is created with 5 units, 2 are taken out by a stock
  movement, 1 is sold, the quantity is adjusted to 7, and 3 are bought.
\<close>

definition example_requests :: "(request \<times> int \<times> nat) list" where
  "example_requests =
     [(POST_products (example_product ''A'' 5), 7, 100),
      (POST_stock_movements (example_movement 1 (- 2)), 7, 200),
      (POST_sales (example_sale [(1, 1)]), 7, 300),
      (PUT_products 1 (example_adjustment 7), 7, 400),
      (POST_purchases (example_purchase [(1, 3, 4)]), 7, 500)]"


section \<open>Auxiliary facts\<close>

subsection \<open>Rows and keys\<close>

lemma find_update_row:
  assumes "\<And>r. p_id (f r) = p_id r"
  shows "find (\<lambda>r. p_id r = j) (map (\<lambda>r. if p_id r = i then f r else r) rows) =
         map_option (\<lambda>r. if p_id r = i then f r else r) (find (\<lambda>r. p_id r = j) rows)"
  using assms by (induction rows) auto

lemma fold_max_ge: "(a::int) \<le> fold max xs a"
proof (induction xs arbitrary: a)
  case Nil
  then show ?case by simp
next
  case (Cons x xs)
  have "a \<le> max x a" by simp
  also have "max x a \<le> fold max xs (max x a)" by (rule Cons.IH)
  finally show ?case by simp
qed

lemma fold_max_mem: "x \<in> set xs \<Longrightarrow> (x::int) \<le> fold max xs a"
proof (induction xs arbitrary: a)
  case Nil
  then show ?case by simp
next
  case (Cons y ys)
  show ?case
  proof (cases "x = y")
    case True
    have "max y a \<le> fold max ys (max y a)" by (rule fold_max_ge)
    with True show ?thesis by simp
  next
    case False
    with Cons show ?thesis by simp
  qed
qed

lemma next_id_fresh: "x \<in> set ids \<Longrightarrow> x < next_id ids"
  using fold_max_mem[of x ids 0] by (simp add: next_id_def)

lemma update_last_row:
  assumes "\<And>r. r \<in> set rows \<Longrightarrow> key r \<noteq> key new"
  shows "map (\<lambda>r. if key r = key new then f r else r) (rows @ [new]) = rows @ [f new]"
  using assms by (induction rows) auto

lemmas session_ops =
  add_product_def add_stock_movement_def add_sale_def add_sale_item_def add_purchase_def
  add_purchase_item_def update_product_row_def update_sale_row_def update_purchase_row_def
  commit_def rollback_def

lemma setattrs_id [simp]: "p_id (setattrs product_data r) = p_id r"
  by (simp add: setattrs_def)

lemma product_exists_update:
  "products d' = map (\<lambda>r. if p_id r = i then r\<lparr>p_quantity := q\<rparr> else r) (products d)
     \<Longrightarrow> product_exists j d' = product_exists j d"
  by (simp add: product_exists_def find_update_row)

lemma product_exists_mem: "product_exists i d \<longleftrightarrow> i \<in> p_id ` set (products d)"
  by (auto simp: product_exists_def find_None_iff)

lemma current_price_update:
  "products d' = map (\<lambda>r. if p_id r = i then r\<lparr>p_quantity := q\<rparr> else r) (products d)
     \<Longrightarrow> current_price j d' = current_price j d"
  by (cases "find (\<lambda>r. p_id r = j) (products d)")
     (auto simp: current_price_def find_update_row)

subsection \<open>The lines of a sale\<close>

lemma requested_Cons:
  "requested i (item # items) =
     (if sic_product_id item = i then sic_quantity item else 0) + requested i items"
  by (simp add: requested_def)

lemma requested_nonneg:
  "list_all (\<lambda>item. 0 \<le> sic_quantity item) items \<Longrightarrow> 0 \<le> requested i items"
  by (induction items) (auto simp: requested_def)

lemma requested_absent:
  "i \<notin> sic_product_id ` set items \<Longrightarrow> requested i items = 0"
  by (induction items) (auto simp: requested_def)

lemma valid_sale_nonneg:
  "valid_SaleCreate sale_data \<Longrightarrow> list_all (\<lambda>item. 0 \<le> sic_quantity item) (sc_items sale_data)"
  by (auto simp: valid_SaleCreate_def valid_SaleItemCreate_def list_all_iff)

lemma sale_lines_step:
  assumes "product_by_id (sic_product_id item) db = Some product"
    and "\<not> p_quantity product < sic_quantity item"
  shows "\<exists>it mv db3.
     sale_lines sale u now (item # rest) total_amount db =
       sale_lines sale u now rest (total_amount + si_subtotal it) db3 \<and>
     si_sale_id it = sale \<and> si_product_id it = sic_product_id item \<and>
     si_quantity it = sic_quantity item \<and> si_unit_price it = p_price product \<and>
     si_subtotal it = p_price product * of_int (sic_quantity item) \<and>
     sm_product_id mv = sic_product_id item \<and> sm_quantity_change mv = - sic_quantity item \<and>
     sm_movement_type mv = ''venta'' \<and> sm_reference mv = Some (''Venta #'' @ str_int sale) \<and>
     committed db3 = committed db \<and> commit_log db3 = commit_log db \<and>
     sales (pending db3) = sales (pending db) \<and>
     sale_items (pending db3) = sale_items (pending db) @ [it] \<and>
     stock_movements (pending db3) = stock_movements (pending db) @ [mv] \<and>
     products (pending db3) =
       map (\<lambda>r. if p_id r = sic_product_id item
                then r\<lparr>p_quantity := p_quantity product - sic_quantity item\<rparr> else r)
         (products (pending db))"
proof -
  from assms(1) have pid: "p_id product = sic_product_id item"
    by (auto simp: product_by_id_def find_Some_iff)
  define it where "it =
     \<lparr>si_id = next_id (map si_id (sale_items (pending db))), si_sale_id = sale,
      si_product_id = p_id product, si_quantity = sic_quantity item,
      si_unit_price = p_price product,
      si_subtotal = p_price product * of_int (sic_quantity item)\<rparr>"
  define mv where "mv =
     \<lparr>sm_id = next_id (map sm_id (stock_movements (pending db))),
      sm_product_id = p_id product, sm_quantity_change = - sic_quantity item,
      sm_movement_type = ''venta'', sm_reference = Some (''Venta #'' @ str_int sale),
      sm_notes = None, sm_created_by = Some u, sm_movement_date = now\<rparr>"
  define db3 where "db3 =
     add_stock_movement mv
       (update_product_row (p_id product)
          (\<lambda>r. r\<lparr>p_quantity := p_quantity product - sic_quantity item\<rparr>)
          (add_sale_item it db))"
  have "sale_lines sale u now (item # rest) total_amount db =
          sale_lines sale u now rest (total_amount + si_subtotal it) db3"
    using assms by (simp add: Let_def it_def mv_def db3_def session_ops)
  moreover have "committed db3 = committed db" "commit_log db3 = commit_log db"
     "sales (pending db3) = sales (pending db)"
     "sale_items (pending db3) = sale_items (pending db) @ [it]"
     "stock_movements (pending db3) = stock_movements (pending db) @ [mv]"
     "products (pending db3) =
       map (\<lambda>r. if p_id r = sic_product_id item
                then r\<lparr>p_quantity := p_quantity product - sic_quantity item\<rparr> else r)
         (products (pending db))"
    by (simp_all add: db3_def session_ops pid)
  moreover have "si_sale_id it = sale" "si_product_id it = sic_product_id item"
     "si_quantity it = sic_quantity item" "si_unit_price it = p_price product"
     "si_subtotal it = p_price product * of_int (sic_quantity item)"
    by (simp_all add: it_def pid)
  moreover have "sm_product_id mv = sic_product_id item"
     "sm_quantity_change mv = - sic_quantity item"
     "sm_movement_type mv = ''venta''" "sm_reference mv = Some (''Venta #'' @ str_int sale)"
    by (simp_all add: mv_def pid)
  ultimately show ?thesis by blast
qed

lemma sale_lines_succeed_iff:
  assumes "list_all (\<lambda>item. 0 \<le> sic_quantity item) items"
  shows "(\<exists>t db'. sale_lines sale u now items total_amount db = (Inr t, db'))
           \<longleftrightarrow> sale_lines_ok items (pending db)"
  using assms
proof (induction items arbitrary: total_amount db)
  case Nil
  then show ?case by (simp add: sale_lines_ok_def)
next
  case (Cons item rest)
  show ?case
  proof (cases "product_by_id (sic_product_id item) db")
    case None
    then show ?thesis by (simp add: sale_lines_ok_def product_by_id_def)
  next
    case (Some product)
    from Some have pid: "p_id product = sic_product_id item"
      by (auto simp: product_by_id_def find_Some_iff)
    have nn: "0 \<le> requested i rest" for i
      using Cons.prems by (auto intro: requested_nonneg)
    show ?thesis
    proof (cases "p_quantity product < sic_quantity item")
      case True
      then show ?thesis
        using Some nn[of "sic_product_id item"]
        by (simp add: sale_lines_ok_def product_by_id_def requested_Cons)
    next
      case False
      have "\<exists>acc db3.
              sale_lines sale u now (item # rest) total_amount db = sale_lines sale u now rest acc db3 \<and>
              products (pending db3) =
                map (\<lambda>r. if p_id r = p_id product
                         then r\<lparr>p_quantity := p_quantity product - sic_quantity item\<rparr> else r)
                  (products (pending db))"
        using Some False
        apply (simp add: Let_def)
        apply (intro exI conjI)
         apply (rule refl)
        apply (simp add: add_sale_item_def update_product_row_def add_stock_movement_def)
        done
      then obtain acc db3 where
        step: "sale_lines sale u now (item # rest) total_amount db = sale_lines sale u now rest acc db3"
        and prods: "products (pending db3) =
                map (\<lambda>r. if p_id r = p_id product
                         then r\<lparr>p_quantity := p_quantity product - sic_quantity item\<rparr> else r)
                  (products (pending db))"
        by blast
      have ih: "(\<exists>t db'. sale_lines sale u now rest acc db3 = (Inr t, db'))
                  \<longleftrightarrow> sale_lines_ok rest (pending db3)"
        using Cons.IH[of acc db3] Cons.prems by simp
      have fnd: "find (\<lambda>r. p_id r = sic_product_id item) (products (pending db)) = Some product"
        using Some by (simp add: product_by_id_def)
      have rest_eq: "sale_lines_ok rest (pending db3) \<longleftrightarrow>
            list_all
             (\<lambda>it. case find (\<lambda>r. p_id r = sic_product_id it) (products (pending db)) of
                      None \<Rightarrow> False
                    | Some p \<Rightarrow> requested (sic_product_id it) (item # rest) \<le> p_quantity p) rest"
        unfolding sale_lines_ok_def prods
      proof (rule list.pred_cong[OF refl])
        fix it assume "it \<in> set rest"
        show "(case find (\<lambda>r. p_id r = sic_product_id it)
                 (map (\<lambda>r. if p_id r = p_id product
                         then r\<lparr>p_quantity := p_quantity product - sic_quantity item\<rparr> else r)
                  (products (pending db))) of
                None \<Rightarrow> False
              | Some p \<Rightarrow> requested (sic_product_id it) rest \<le> p_quantity p) =
              (case find (\<lambda>r. p_id r = sic_product_id it) (products (pending db)) of
                None \<Rightarrow> False
              | Some p \<Rightarrow> requested (sic_product_id it) (item # rest) \<le> p_quantity p)"
        proof (cases "sic_product_id it = sic_product_id item")
          case True
          then show ?thesis
            by (simp add: find_update_row requested_Cons pid fnd) linarith
        next
          case False
          then have "p_id r \<noteq> p_id product"
            if "find (\<lambda>r. p_id r = sic_product_id it) (products (pending db)) = Some r" for r
            using that pid by (auto simp: find_Some_iff)
          with False show ?thesis
            by (auto simp: find_update_row requested_Cons split: option.splits)
        qed
      qed
      have head: "list_all
             (\<lambda>it. case find (\<lambda>r. p_id r = sic_product_id it) (products (pending db)) of
                      None \<Rightarrow> False
                    | Some p \<Rightarrow> requested (sic_product_id it) (item # rest) \<le> p_quantity p) rest
            \<Longrightarrow> requested (sic_product_id item) (item # rest) \<le> p_quantity product"
      proof (cases "sic_product_id item \<in> sic_product_id ` set rest")
        case True
        then obtain it where "it \<in> set rest" "sic_product_id it = sic_product_id item" by auto
        moreover assume "list_all
             (\<lambda>it. case find (\<lambda>r. p_id r = sic_product_id it) (products (pending db)) of
                      None \<Rightarrow> False
                    | Some p \<Rightarrow> requested (sic_product_id it) (item # rest) \<le> p_quantity p) rest"
        ultimately show ?thesis using fnd by (auto simp: list_all_iff)
      next
        case False
        then show ?thesis using \<open>\<not> p_quantity product < sic_quantity item\<close>
          by (simp add: requested_Cons requested_absent)
      qed
      show ?thesis
        unfolding step ih rest_eq
        using head fnd by (auto simp: sale_lines_ok_def)
    qed
  qed
qed

lemma sale_lines_ok_nonempty_success:
  assumes "valid_SaleCreate sale_data" and "sale_lines_ok (sc_items sale_data) (pending db)"
  shows "\<exists>t db2. sale_lines sale u now (sc_items sale_data) 0 db = (Inr t, db2)"
  using sale_lines_succeed_iff[OF valid_sale_nonneg[OF assms(1)], of sale u now 0 db] assms(2)
  by simp

lemma sale_lines_failure:
  "sale_lines sale u now items total_amount db = (Inl e, db') \<Longrightarrow>
     (e = NotFound \<or> e = InsufficientStock) \<and>
     pending db' = committed db \<and> committed db' = committed db \<and> commit_log db' = commit_log db"
proof (induction items arbitrary: total_amount db)
  case Nil
  then show ?case by simp
next
  case (Cons item rest)
  show ?case
  proof (cases "product_by_id (sic_product_id item) db")
    case None
    with Cons.prems show ?thesis by (auto simp: rollback_def)
  next
    case (Some product)
    show ?thesis
    proof (cases "p_quantity product < sic_quantity item")
      case True
      with Some Cons.prems show ?thesis by (auto simp: rollback_def)
    next
      case False
      from sale_lines_step[OF Some False, of sale u now rest total_amount]
      obtain acc db3 where
        step: "sale_lines sale u now (item # rest) total_amount db =
                 sale_lines sale u now rest acc db3"
        and db3: "committed db3 = committed db" "commit_log db3 = commit_log db"
        by blast
      from step Cons.prems have "sale_lines sale u now rest acc db3 = (Inl e, db')"
        by simp
      with Cons.IH[of acc db3] db3 show ?thesis by simp
    qed
  qed
qed

lemma sale_lines_error_kind:
  "list_all (\<lambda>item. product_exists (sic_product_id item) (pending db)) items \<Longrightarrow>
   sale_lines sale u now items total_amount db = (Inl e, db') \<Longrightarrow> e = InsufficientStock"
proof (induction items arbitrary: total_amount db)
  case Nil
  then show ?case by simp
next
  case (Cons item rest)
  from Cons.prems(1) obtain product where
    Some: "product_by_id (sic_product_id item) db = Some product"
    by (auto simp: product_exists_def product_by_id_def)
  show ?case
  proof (cases "p_quantity product < sic_quantity item")
    case True
    with Some Cons.prems(2) show ?thesis by simp
  next
    case False
    from sale_lines_step[OF Some False, of sale u now rest total_amount]
    obtain acc db3 where
      step: "sale_lines sale u now (item # rest) total_amount db =
               sale_lines sale u now rest acc db3"
      and prods: "products (pending db3) =
         map (\<lambda>r. if p_id r = sic_product_id item
                then r\<lparr>p_quantity := p_quantity product - sic_quantity item\<rparr> else r)
           (products (pending db))"
      by blast
    have "list_all (\<lambda>item. product_exists (sic_product_id item) (pending db3)) rest"
      using Cons.prems(1) by (simp add: product_exists_update[OF prods])
    moreover from step Cons.prems(2) have "sale_lines sale u now rest acc db3 = (Inl e, db')"
      by simp
    ultimately show ?thesis by (rule Cons.IH)
  qed
qed

lemma sale_lines_success:
  "sale_lines sale u now items total_amount db = (Inr t, db') \<Longrightarrow>
     committed db' = committed db \<and> commit_log db' = commit_log db \<and>
     sales (pending db') = sales (pending db) \<and>
     (\<exists>new_items new_movements.
        sale_items (pending db') = sale_items (pending db) @ new_items \<and>
        map si_sale_id new_items = map (\<lambda>item. sale) items \<and>
        map si_product_id new_items = map sic_product_id items \<and>
        map si_quantity new_items = map sic_quantity items \<and>
        map (\<lambda>r. Some (si_unit_price r)) new_items =
          map (\<lambda>item. current_price (sic_product_id item) (pending db)) items \<and>
        map si_subtotal new_items =
          map (\<lambda>r. si_unit_price r * of_int (si_quantity r)) new_items \<and>
        t = total_amount + sum_list (map si_subtotal new_items) \<and>
        stock_movements (pending db') = stock_movements (pending db) @ new_movements \<and>
        map sm_product_id new_movements = map sic_product_id items \<and>
        map sm_quantity_change new_movements = map (\<lambda>item. - sic_quantity item) items \<and>
        map sm_movement_type new_movements = map (\<lambda>item. ''venta'') items \<and>
        map sm_reference new_movements = map (\<lambda>item. Some (''Venta #'' @ str_int sale)) items)"
proof (induction items arbitrary: total_amount db)
  case Nil
  then show ?case by simp
next
  case (Cons item rest)
  from Cons.prems obtain product where
    Some: "product_by_id (sic_product_id item) db = Some product"
    by (cases "product_by_id (sic_product_id item) db") auto
  from Cons.prems Some have ok: "\<not> p_quantity product < sic_quantity item"
    by (auto split: if_splits)
  from Some have price: "current_price (sic_product_id item) (pending db) = Some (p_price product)"
    by (simp add: current_price_def product_by_id_def)
  from sale_lines_step[OF Some ok, of sale u now rest total_amount]
  obtain it mv db3 where
    step: "sale_lines sale u now (item # rest) total_amount db =
             sale_lines sale u now rest (total_amount + si_subtotal it) db3"
    and it: "si_sale_id it = sale" "si_product_id it = sic_product_id item"
       "si_quantity it = sic_quantity item" "si_unit_price it = p_price product"
       "si_subtotal it = p_price product * of_int (sic_quantity item)"
    and mv: "sm_product_id mv = sic_product_id item" "sm_quantity_change mv = - sic_quantity item"
       "sm_movement_type mv = ''venta''" "sm_reference mv = Some (''Venta #'' @ str_int sale)"
    and db3: "committed db3 = committed db" "commit_log db3 = commit_log db"
       "sales (pending db3) = sales (pending db)"
       "sale_items (pending db3) = sale_items (pending db) @ [it]"
       "stock_movements (pending db3) = stock_movements (pending db) @ [mv]"
    and prods: "products (pending db3) =
       map (\<lambda>r. if p_id r = sic_product_id item
                then r\<lparr>p_quantity := p_quantity product - sic_quantity item\<rparr> else r)
         (products (pending db))"
    by blast
  from step Cons.prems
  have rec: "sale_lines sale u now rest (total_amount + si_subtotal it) db3 = (Inr t, db')"
    by simp
  have same_price: "current_price j (pending db3) = current_price j (pending db)" for j
    using prods by (rule current_price_update)
  from Cons.IH[OF rec] obtain new_items new_movements where
    ih: "committed db' = committed db3" "commit_log db' = commit_log db3"
      "sales (pending db') = sales (pending db3)"
      "sale_items (pending db') = sale_items (pending db3) @ new_items"
      "map si_sale_id new_items = map (\<lambda>item. sale) rest"
      "map si_product_id new_items = map sic_product_id rest"
      "map si_quantity new_items = map sic_quantity rest"
      "map (\<lambda>r. Some (si_unit_price r)) new_items =
          map (\<lambda>item. current_price (sic_product_id item) (pending db3)) rest"
      "map si_subtotal new_items = map (\<lambda>r. si_unit_price r * of_int (si_quantity r)) new_items"
      "t = total_amount + si_subtotal it + sum_list (map si_subtotal new_items)"
      "stock_movements (pending db') = stock_movements (pending db3) @ new_movements"
      "map sm_product_id new_movements = map sic_product_id rest"
      "map sm_quantity_change new_movements = map (\<lambda>item. - sic_quantity item) rest"
      "map sm_movement_type new_movements = map (\<lambda>item. ''venta'') rest"
      "map sm_reference new_movements = map (\<lambda>item. Some (''Venta #'' @ str_int sale)) rest"
    by blast
  show ?case
    apply (intro conjI)
       apply (simp add: ih db3)
      apply (simp add: ih db3)
     apply (simp add: ih db3)
    apply (rule exI[of _ "it # new_items"])
    apply (rule exI[of _ "mv # new_movements"])
    apply (simp add: ih db3 it mv price same_price)
    done
qed

lemma create_sale_error:
  assumes "sc_items sale_data \<noteq> []"
    and "sale_lines (next_id (map sale_id (sales (pending db)))) u now (sc_items sale_data) 0
           (add_sale \<lparr>sale_id = next_id (map sale_id (sales (pending db))),
                sale_customer_name = sc_customer_name sale_data, sale_total_amount = 0,
                sale_payment_method = sc_payment_method sale_data, sale_created_by = u\<rparr> db)
         = (Inl e, db2)"
  shows "create_sale sale_data u now db = (Inl e, db2)"
  using assms by (simp add: create_sale_def Let_def)

lemma create_sale_result:
  assumes "sc_items sale_data \<noteq> []"
    and "sale_lines (next_id (map sale_id (sales (pending db)))) u now (sc_items sale_data) 0
           (add_sale \<lparr>sale_id = next_id (map sale_id (sales (pending db))),
                sale_customer_name = sc_customer_name sale_data, sale_total_amount = 0,
                sale_payment_method = sc_payment_method sale_data, sale_created_by = u\<rparr> db)
         = (Inr t, db2)"
  shows "create_sale sale_data u now db =
     (Inr \<lparr>sale_id = next_id (map sale_id (sales (pending db))),
           sale_customer_name = sc_customer_name sale_data, sale_total_amount = t,
           sale_payment_method = sc_payment_method sale_data, sale_created_by = u\<rparr>,
      commit (update_sale_row (next_id (map sale_id (sales (pending db))))
                (\<lambda>r. r\<lparr>sale_total_amount := t\<rparr>) db2))"
  using assms by (simp add: create_sale_def Let_def)

lemma create_sale_error_unchanged:
  assumes "create_sale sale_data u now (open_session d) = (Inl e, db')"
  shows "committed db' = d \<and> pending db' = d \<and> commit_log db' = []"
proof (cases "sc_items sale_data = []")
  case True
  with assms show ?thesis by (auto simp: create_sale_def open_session_def)
next
  case ne: False
  define n where "n = next_id (map sale_id (sales (pending (open_session d))))"
  define db1 where "db1 = add_sale \<lparr>sale_id = n,
                sale_customer_name = sc_customer_name sale_data, sale_total_amount = 0,
                sale_payment_method = sc_payment_method sale_data, sale_created_by = u\<rparr>
                (open_session d)"
  have db1: "committed db1 = d" "commit_log db1 = []"
    by (simp_all add: db1_def add_sale_def open_session_def)
  show ?thesis
  proof (cases "sale_lines n u now (sc_items sale_data) 0 db1")
    case (Pair res db2)
    show ?thesis
    proof (cases res)
      case (Inl e2)
      with Pair have fail: "sale_lines n u now (sc_items sale_data) 0 db1 = (Inl e2, db2)"
        by simp
      from fail have "create_sale sale_data u now (open_session d) = (Inl e2, db2)"
        unfolding db1_def n_def by (rule create_sale_error[OF ne])
      with assms sale_lines_failure[OF fail] db1 show ?thesis by simp
    next
      case (Inr t)
      with Pair have "sale_lines n u now (sc_items sale_data) 0 db1 = (Inr t, db2)"
        by simp
      then have "fst (create_sale sale_data u now (open_session d)) =
        Inr \<lparr>sale_id = n, sale_customer_name = sc_customer_name sale_data,
              sale_total_amount = t, sale_payment_method = sc_payment_method sale_data,
              sale_created_by = u\<rparr>"
        unfolding db1_def n_def by (simp add: create_sale_result[OF ne])
      with assms show ?thesis by simp
    qed
  qed
qed

lemma create_sale_success:
  assumes "valid_SaleCreate sale_data" and "sc_items sale_data \<noteq> []"
    and "sale_lines_ok (sc_items sale_data) d"
  shows "\<exists>sale db' new_items new_movements.
     create_sale sale_data u now (open_session d) = (Inr sale, db') \<and>
     committed db' = pending db' \<and>
     sales (committed db') = sales d @ [sale] \<and>
     sale_items (committed db') = sale_items d @ new_items \<and>
     stock_movements (committed db') = stock_movements d @ new_movements \<and>
     map si_sale_id new_items = map (\<lambda>item. sale_id sale) (sc_items sale_data) \<and>
     map si_product_id new_items = map sic_product_id (sc_items sale_data) \<and>
     map si_quantity new_items = map sic_quantity (sc_items sale_data) \<and>
     map (\<lambda>r. Some (si_unit_price r)) new_items =
       map (\<lambda>item. current_price (sic_product_id item) d) (sc_items sale_data) \<and>
     map si_subtotal new_items = map (\<lambda>r. si_unit_price r * of_int (si_quantity r)) new_items \<and>
     sale_total_amount sale = sum_list (map si_subtotal new_items) \<and>
     map sm_product_id new_movements = map sic_product_id (sc_items sale_data) \<and>
     map sm_quantity_change new_movements = map (\<lambda>item. - sic_quantity item) (sc_items sale_data) \<and>
     map sm_movement_type new_movements = map (\<lambda>item. ''venta'') (sc_items sale_data) \<and>
     map sm_reference new_movements =
       map (\<lambda>item. Some (''Venta #'' @ str_int (sale_id sale))) (sc_items sale_data)"
proof -
  define n where "n = next_id (map sale_id (sales (pending (open_session d))))"
  define header where "header = \<lparr>sale_id = n,
                sale_customer_name = sc_customer_name sale_data, sale_total_amount = 0,
                sale_payment_method = sc_payment_method sale_data, sale_created_by = u\<rparr>"
  define db1 where "db1 = add_sale header (open_session d)"
  have db1: "products (pending db1) = products d" "sales (pending db1) = sales d @ [header]"
    "sale_items (pending db1) = sale_items d" "stock_movements (pending db1) = stock_movements d"
    by (simp_all add: db1_def add_sale_def open_session_def)
  have "sale_lines_ok (sc_items sale_data) (pending db1)"
    using assms(3) db1 by (simp add: sale_lines_ok_def)
  from sale_lines_ok_nonempty_success[OF assms(1) this, of n u now] obtain t db2 where
    succ: "sale_lines n u now (sc_items sale_data) 0 db1 = (Inr t, db2)" by blast
  define sale where "sale = header\<lparr>sale_total_amount := t\<rparr>"
  define db' where "db' = commit (update_sale_row n (\<lambda>r. r\<lparr>sale_total_amount := t\<rparr>) db2)"
  have cs: "create_sale sale_data u now (open_session d) = (Inr sale, db')"
    using create_sale_result[OF assms(2), of "open_session d" u now t db2] succ
    by (simp add: db1_def header_def n_def sale_def db'_def)
  have price: "current_price j (pending db1) = current_price j d" for j
    using db1 by (simp add: current_price_def)
  from sale_lines_success[OF succ] obtain new_items new_movements where
    tabs2: "sales (pending db2) = sales (pending db1)"
      "sale_items (pending db2) = sale_items (pending db1) @ new_items"
      "stock_movements (pending db2) = stock_movements (pending db1) @ new_movements"
    and items: "map si_sale_id new_items = map (\<lambda>item. n) (sc_items sale_data)"
      "map si_product_id new_items = map sic_product_id (sc_items sale_data)"
      "map si_quantity new_items = map sic_quantity (sc_items sale_data)"
      "map (\<lambda>r. Some (si_unit_price r)) new_items =
          map (\<lambda>item. current_price (sic_product_id item) (pending db1)) (sc_items sale_data)"
      "map si_subtotal new_items = map (\<lambda>r. si_unit_price r * of_int (si_quantity r)) new_items"
    and total: "t = 0 + sum_list (map si_subtotal new_items)"
    and movs: "map sm_product_id new_movements = map sic_product_id (sc_items sale_data)"
      "map sm_quantity_change new_movements = map (\<lambda>item. - sic_quantity item) (sc_items sale_data)"
      "map sm_movement_type new_movements = map (\<lambda>item. ''venta'') (sc_items sale_data)"
      "map sm_reference new_movements =
         map (\<lambda>item. Some (''Venta #'' @ str_int n)) (sc_items sale_data)"
    by blast
  have fresh: "sale_id r \<noteq> sale_id header" if "r \<in> set (sales d)" for r
    using next_id_fresh[of "sale_id r" "map sale_id (sales d)"] that
    by (auto simp: header_def n_def open_session_def)
  have sid: "sale_id sale = n" "sale_id header = n" "sale_total_amount sale = t"
    by (simp_all add: sale_def header_def)
  have "map (\<lambda>r. if sale_id r = sale_id header then r\<lparr>sale_total_amount := t\<rparr> else r)
          (sales d @ [header]) = sales d @ [header\<lparr>sale_total_amount := t\<rparr>]"
    using fresh by (rule update_last_row)
  then have sales': "sales (committed db') = sales d @ [sale]"
    by (simp add: db'_def commit_def update_sale_row_def tabs2 db1 sale_def sid)
  have tabs: "committed db' = pending db'"
    "sale_items (committed db') = sale_items d @ new_items"
    "stock_movements (committed db') = stock_movements d @ new_movements"
    by (simp_all add: db'_def commit_def update_sale_row_def tabs2 db1)
  have f1: "map si_sale_id new_items = map (\<lambda>item. sale_id sale) (sc_items sale_data)"
    using items(1) by (simp add: sid)
  have f2: "map (\<lambda>r. Some (si_unit_price r)) new_items =
       map (\<lambda>item. current_price (sic_product_id item) d) (sc_items sale_data)"
    using items(4) by (simp add: price)
  have f3: "sale_total_amount sale = sum_list (map si_subtotal new_items)"
    using total by (simp add: sid)
  have f4: "map sm_reference new_movements =
       map (\<lambda>item. Some (''Venta #'' @ str_int (sale_id sale))) (sc_items sale_data)"
    using movs(4) by (simp add: sid)
  show ?thesis
    apply (intro exI conjI)
                  apply (rule cs)
                 apply (rule tabs(1))
                apply (rule sales')
               apply (rule tabs(2))
              apply (rule tabs(3))
             apply (rule f1)
            apply (rule items(2))
           apply (rule items(3))
          apply (rule f2)
         apply (rule items(5))
        apply (rule f3)
       apply (rule movs(1))
      apply (rule movs(2))
     apply (rule movs(3))
    apply (rule f4)
    done
qed

subsection \<open>The lines of a purchase\<close>

lemma purchase_lines_step:
  assumes "product_by_id (pic_product_id item) db = Some product"
  shows "\<exists>it mv db3.
     purchase_lines purchase u now (item # rest) total_amount db =
       purchase_lines purchase u now rest (total_amount + pi_subtotal it) db3 \<and>
     pi_purchase_id it = purchase \<and> pi_product_id it = pic_product_id item \<and>
     pi_quantity it = pic_quantity item \<and> pi_unit_price it = pic_unit_price item \<and>
     pi_subtotal it = pic_unit_price item * of_int (pic_quantity item) \<and>
     sm_product_id mv = pic_product_id item \<and> sm_quantity_change mv = pic_quantity item \<and>
     sm_movement_type mv = ''compra'' \<and> sm_reference mv = Some (''Compra #'' @ str_int purchase) \<and>
     committed db3 = committed db \<and> commit_log db3 = commit_log db \<and>
     purchases (pending db3) = purchases (pending db) \<and>
     purchase_items (pending db3) = purchase_items (pending db) @ [it] \<and>
     stock_movements (pending db3) = stock_movements (pending db) @ [mv] \<and>
     products (pending db3) =
       map (\<lambda>r. if p_id r = pic_product_id item
                then r\<lparr>p_quantity := p_quantity product + pic_quantity item\<rparr> else r)
         (products (pending db))"
proof -
  from assms(1) have pid: "p_id product = pic_product_id item"
    by (auto simp: product_by_id_def find_Some_iff)
  define it where "it =
     \<lparr>pi_id = next_id (map pi_id (purchase_items (pending db))), pi_purchase_id = purchase,
      pi_product_id = p_id product, pi_quantity = pic_quantity item,
      pi_unit_price = pic_unit_price item,
      pi_subtotal = pic_unit_price item * of_int (pic_quantity item)\<rparr>"
  define mv where "mv =
     \<lparr>sm_id = next_id (map sm_id (stock_movements (pending db))),
      sm_product_id = p_id product, sm_quantity_change = pic_quantity item,
      sm_movement_type = ''compra'', sm_reference = Some (''Compra #'' @ str_int purchase),
      sm_notes = None, sm_created_by = Some u, sm_movement_date = now\<rparr>"
  define db3 where "db3 =
     add_stock_movement mv
       (update_product_row (p_id product)
          (\<lambda>r. r\<lparr>p_quantity := p_quantity product + pic_quantity item\<rparr>)
          (add_purchase_item it db))"
  have "purchase_lines purchase u now (item # rest) total_amount db =
          purchase_lines purchase u now rest (total_amount + pi_subtotal it) db3"
    using assms by (simp add: Let_def it_def mv_def db3_def session_ops)
  moreover have "committed db3 = committed db" "commit_log db3 = commit_log db"
     "purchases (pending db3) = purchases (pending db)"
     "purchase_items (pending db3) = purchase_items (pending db) @ [it]"
     "stock_movements (pending db3) = stock_movements (pending db) @ [mv]"
     "products (pending db3) =
       map (\<lambda>r. if p_id r = pic_product_id item
                then r\<lparr>p_quantity := p_quantity product + pic_quantity item\<rparr> else r)
         (products (pending db))"
    by (simp_all add: db3_def session_ops pid)
  moreover have "pi_purchase_id it = purchase" "pi_product_id it = pic_product_id item"
     "pi_quantity it = pic_quantity item" "pi_unit_price it = pic_unit_price item"
     "pi_subtotal it = pic_unit_price item * of_int (pic_quantity item)"
    by (simp_all add: it_def pid)
  moreover have "sm_product_id mv = pic_product_id item"
     "sm_quantity_change mv = pic_quantity item"
     "sm_movement_type mv = ''compra''" "sm_reference mv = Some (''Compra #'' @ str_int purchase)"
    by (simp_all add: mv_def pid)
  ultimately show ?thesis by blast
qed

lemma purchase_lines_failure:
  "purchase_lines purchase u now items total_amount db = (Inl e, db') \<Longrightarrow>
     e = NotFound \<and>
     pending db' = committed db \<and> committed db' = committed db \<and> commit_log db' = commit_log db"
proof (induction items arbitrary: total_amount db)
  case Nil
  then show ?case by simp
next
  case (Cons item rest)
  show ?case
  proof (cases "product_by_id (pic_product_id item) db")
    case None
    with Cons.prems show ?thesis by (auto simp: rollback_def)
  next
    case (Some product)
    from purchase_lines_step[OF Some, of purchase u now rest total_amount]
    obtain acc db3 where
      step: "purchase_lines purchase u now (item # rest) total_amount db =
               purchase_lines purchase u now rest acc db3"
      and db3: "committed db3 = committed db" "commit_log db3 = commit_log db"
      by blast
    from step Cons.prems have "purchase_lines purchase u now rest acc db3 = (Inl e, db')"
      by simp
    with Cons.IH[of acc db3] db3 show ?thesis by simp
  qed
qed

lemma purchase_lines_succeed:
  "list_all (\<lambda>item. product_exists (pic_product_id item) (pending db)) items \<Longrightarrow>
   \<exists>t db'. purchase_lines purchase u now items total_amount db = (Inr t, db')"
proof (induction items arbitrary: total_amount db)
  case Nil
  then show ?case by simp
next
  case (Cons item rest)
  from Cons.prems obtain product where
    Some: "product_by_id (pic_product_id item) db = Some product"
    by (auto simp: product_exists_def product_by_id_def)
  from purchase_lines_step[OF Some, of purchase u now rest total_amount]
  obtain acc db3 where
    step: "purchase_lines purchase u now (item # rest) total_amount db =
             purchase_lines purchase u now rest acc db3"
    and prods: "products (pending db3) =
       map (\<lambda>r. if p_id r = pic_product_id item
                then r\<lparr>p_quantity := p_quantity product + pic_quantity item\<rparr> else r)
         (products (pending db))"
    by blast
  have "list_all (\<lambda>item. product_exists (pic_product_id item) (pending db3)) rest"
    using Cons.prems by (simp add: product_exists_update[OF prods])
  from Cons.IH[OF this, of acc] step show ?case by simp
qed

lemma purchase_lines_success:
  "purchase_lines purchase u now items total_amount db = (Inr t, db') \<Longrightarrow>
     committed db' = committed db \<and> commit_log db' = commit_log db \<and>
     purchases (pending db') = purchases (pending db) \<and>
     (\<exists>new_items new_movements.
        purchase_items (pending db') = purchase_items (pending db) @ new_items \<and>
        map pi_purchase_id new_items = map (\<lambda>item. purchase) items \<and>
        map pi_product_id new_items = map pic_product_id items \<and>
        map pi_quantity new_items = map pic_quantity items \<and>
        map pi_unit_price new_items = map pic_unit_price items \<and>
        map pi_subtotal new_items =
          map (\<lambda>item. pic_unit_price item * of_int (pic_quantity item)) items \<and>
        t = total_amount + sum_list (map pi_subtotal new_items) \<and>
        stock_movements (pending db') = stock_movements (pending db) @ new_movements \<and>
        map sm_product_id new_movements = map pic_product_id items \<and>
        map sm_quantity_change new_movements = map pic_quantity items \<and>
        map sm_movement_type new_movements = map (\<lambda>item. ''compra'') items \<and>
        map sm_reference new_movements =
          map (\<lambda>item. Some (''Compra #'' @ str_int purchase)) items)"
proof (induction items arbitrary: total_amount db)
  case Nil
  then show ?case by simp
next
  case (Cons item rest)
  from Cons.prems obtain product where
    Some: "product_by_id (pic_product_id item) db = Some product"
    by (cases "product_by_id (pic_product_id item) db") auto
  from purchase_lines_step[OF Some, of purchase u now rest total_amount]
  obtain it mv db3 where
    step: "purchase_lines purchase u now (item # rest) total_amount db =
             purchase_lines purchase u now rest (total_amount + pi_subtotal it) db3"
    and it: "pi_purchase_id it = purchase" "pi_product_id it = pic_product_id item"
       "pi_quantity it = pic_quantity item" "pi_unit_price it = pic_unit_price item"
       "pi_subtotal it = pic_unit_price item * of_int (pic_quantity item)"
    and mv: "sm_product_id mv = pic_product_id item" "sm_quantity_change mv = pic_quantity item"
       "sm_movement_type mv = ''compra''"
       "sm_reference mv = Some (''Compra #'' @ str_int purchase)"
    and db3: "committed db3 = committed db" "commit_log db3 = commit_log db"
       "purchases (pending db3) = purchases (pending db)"
       "purchase_items (pending db3) = purchase_items (pending db) @ [it]"
       "stock_movements (pending db3) = stock_movements (pending db) @ [mv]"
    by blast
  from step Cons.prems
  have rec: "purchase_lines purchase u now rest (total_amount + pi_subtotal it) db3 = (Inr t, db')"
    by simp
  from Cons.IH[OF rec] obtain new_items new_movements where
    ih: "committed db' = committed db3" "commit_log db' = commit_log db3"
      "purchases (pending db') = purchases (pending db3)"
      "purchase_items (pending db') = purchase_items (pending db3) @ new_items"
      "map pi_purchase_id new_items = map (\<lambda>item. purchase) rest"
      "map pi_product_id new_items = map pic_product_id rest"
      "map pi_quantity new_items = map pic_quantity rest"
      "map pi_unit_price new_items = map pic_unit_price rest"
      "map pi_subtotal new_items =
          map (\<lambda>item. pic_unit_price item * of_int (pic_quantity item)) rest"
      "t = total_amount + pi_subtotal it + sum_list (map pi_subtotal new_items)"
      "stock_movements (pending db') = stock_movements (pending db3) @ new_movements"
      "map sm_product_id new_movements = map pic_product_id rest"
      "map sm_quantity_change new_movements = map pic_quantity rest"
      "map sm_movement_type new_movements = map (\<lambda>item. ''compra'') rest"
      "map sm_reference new_movements = map (\<lambda>item. Some (''Compra #'' @ str_int purchase)) rest"
    by blast
  show ?case
    apply (intro conjI)
       apply (simp add: ih db3)
      apply (simp add: ih db3)
     apply (simp add: ih db3)
    apply (rule exI[of _ "it # new_items"])
    apply (rule exI[of _ "mv # new_movements"])
    apply (simp add: ih db3 it mv)
    done
qed

lemma create_purchase_error:
  assumes "puc_items purchase_data \<noteq> []"
    and "purchase_lines (next_id (map pu_id (purchases (pending db)))) u now
           (puc_items purchase_data) 0
           (add_purchase \<lparr>pu_id = next_id (map pu_id (purchases (pending db))),
                pu_supplier_name = puc_supplier_name purchase_data, pu_total_amount = 0,
                pu_reference = puc_reference purchase_data, pu_created_by = u\<rparr> db)
         = (Inl e, db2)"
  shows "create_purchase purchase_data u now db = (Inl e, db2)"
  using assms by (simp add: create_purchase_def Let_def)

lemma create_purchase_result:
  assumes "puc_items purchase_data \<noteq> []"
    and "purchase_lines (next_id (map pu_id (purchases (pending db)))) u now
           (puc_items purchase_data) 0
           (add_purchase \<lparr>pu_id = next_id (map pu_id (purchases (pending db))),
                pu_supplier_name = puc_supplier_name purchase_data, pu_total_amount = 0,
                pu_reference = puc_reference purchase_data, pu_created_by = u\<rparr> db)
         = (Inr t, db2)"
  shows "create_purchase purchase_data u now db =
     (Inr \<lparr>pu_id = next_id (map pu_id (purchases (pending db))),
           pu_supplier_name = puc_supplier_name purchase_data, pu_total_amount = t,
           pu_reference = puc_reference purchase_data, pu_created_by = u\<rparr>,
      commit (update_purchase_row (next_id (map pu_id (purchases (pending db))))
                (\<lambda>r. r\<lparr>pu_total_amount := t\<rparr>) db2))"
  using assms by (simp add: create_purchase_def Let_def)

lemma create_purchase_success:
  assumes "valid_PurchaseCreate purchase_data" and "puc_items purchase_data \<noteq> []"
    and "list_all (\<lambda>item. product_exists (pic_product_id item) d) (puc_items purchase_data)"
  shows "\<exists>purchase db' new_items new_movements.
     create_purchase purchase_data u now (open_session d) = (Inr purchase, db') \<and>
     committed db' = pending db' \<and>
     purchases (committed db') = purchases d @ [purchase] \<and>
     purchase_items (committed db') = purchase_items d @ new_items \<and>
     stock_movements (committed db') = stock_movements d @ new_movements \<and>
     map pi_purchase_id new_items = map (\<lambda>item. pu_id purchase) (puc_items purchase_data) \<and>
     map pi_product_id new_items = map pic_product_id (puc_items purchase_data) \<and>
     map pi_quantity new_items = map pic_quantity (puc_items purchase_data) \<and>
     map pi_unit_price new_items = map pic_unit_price (puc_items purchase_data) \<and>
     map pi_subtotal new_items =
       map (\<lambda>item. pic_unit_price item * of_int (pic_quantity item)) (puc_items purchase_data) \<and>
     pu_total_amount purchase = sum_list (map pi_subtotal new_items) \<and>
     map sm_product_id new_movements = map pic_product_id (puc_items purchase_data) \<and>
     map sm_quantity_change new_movements = map pic_quantity (puc_items purchase_data) \<and>
     list_all (\<lambda>m. 0 < sm_quantity_change m) new_movements \<and>
     map sm_movement_type new_movements = map (\<lambda>item. ''compra'') (puc_items purchase_data) \<and>
     map sm_reference new_movements =
       map (\<lambda>item. Some (''Compra #'' @ str_int (pu_id purchase))) (puc_items purchase_data)"
proof -
  define n where "n = next_id (map pu_id (purchases (pending (open_session d))))"
  define header where "header = \<lparr>pu_id = n,
                pu_supplier_name = puc_supplier_name purchase_data, pu_total_amount = 0,
                pu_reference = puc_reference purchase_data, pu_created_by = u\<rparr>"
  define db1 where "db1 = add_purchase header (open_session d)"
  have db1: "products (pending db1) = products d" "purchases (pending db1) = purchases d @ [header]"
    "purchase_items (pending db1) = purchase_items d"
    "stock_movements (pending db1) = stock_movements d"
    by (simp_all add: db1_def add_purchase_def open_session_def)
  have "list_all (\<lambda>item. product_exists (pic_product_id item) (pending db1))
          (puc_items purchase_data)"
    using assms(3) db1 by (simp add: product_exists_def)
  from purchase_lines_succeed[OF this, of n u now 0] obtain t db2 where
    succ: "purchase_lines n u now (puc_items purchase_data) 0 db1 = (Inr t, db2)" by blast
  define purchase where "purchase = header\<lparr>pu_total_amount := t\<rparr>"
  define db' where "db' = commit (update_purchase_row n (\<lambda>r. r\<lparr>pu_total_amount := t\<rparr>) db2)"
  have cs: "create_purchase purchase_data u now (open_session d) = (Inr purchase, db')"
    using create_purchase_result[OF assms(2), of "open_session d" u now t db2] succ
    by (simp add: db1_def header_def n_def purchase_def db'_def)
  from purchase_lines_success[OF succ] obtain new_items new_movements where
    tabs2: "purchases (pending db2) = purchases (pending db1)"
      "purchase_items (pending db2) = purchase_items (pending db1) @ new_items"
      "stock_movements (pending db2) = stock_movements (pending db1) @ new_movements"
    and items: "map pi_purchase_id new_items = map (\<lambda>item. n) (puc_items purchase_data)"
      "map pi_product_id new_items = map pic_product_id (puc_items purchase_data)"
      "map pi_quantity new_items = map pic_quantity (puc_items purchase_data)"
      "map pi_unit_price new_items = map pic_unit_price (puc_items purchase_data)"
      "map pi_subtotal new_items =
         map (\<lambda>item. pic_unit_price item * of_int (pic_quantity item)) (puc_items purchase_data)"
    and total: "t = 0 + sum_list (map pi_subtotal new_items)"
    and movs: "map sm_product_id new_movements = map pic_product_id (puc_items purchase_data)"
      "map sm_quantity_change new_movements = map pic_quantity (puc_items purchase_data)"
      "map sm_movement_type new_movements = map (\<lambda>item. ''compra'') (puc_items purchase_data)"
      "map sm_reference new_movements =
         map (\<lambda>item. Some (''Compra #'' @ str_int n)) (puc_items purchase_data)"
    by blast
  have fresh: "pu_id r \<noteq> pu_id header" if "r \<in> set (purchases d)" for r
    using next_id_fresh[of "pu_id r" "map pu_id (purchases d)"] that
    by (auto simp: header_def n_def open_session_def)
  have sid: "pu_id purchase = n" "pu_id header = n" "pu_total_amount purchase = t"
    by (simp_all add: purchase_def header_def)
  have "map (\<lambda>r. if pu_id r = pu_id header then r\<lparr>pu_total_amount := t\<rparr> else r)
          (purchases d @ [header]) = purchases d @ [header\<lparr>pu_total_amount := t\<rparr>]"
    using fresh by (rule update_last_row)
  then have purchases': "purchases (committed db') = purchases d @ [purchase]"
    by (simp add: db'_def commit_def update_purchase_row_def tabs2 db1 purchase_def sid)
  have tabs: "committed db' = pending db'"
    "purchase_items (committed db') = purchase_items d @ new_items"
    "stock_movements (committed db') = stock_movements d @ new_movements"
    by (simp_all add: db'_def commit_def update_purchase_row_def tabs2 db1)
  have f1: "map pi_purchase_id new_items = map (\<lambda>item. pu_id purchase) (puc_items purchase_data)"
    using items(1) by (simp add: sid)
  have f3: "pu_total_amount purchase = sum_list (map pi_subtotal new_items)"
    using total by (simp add: sid)
  have f4: "map sm_reference new_movements =
       map (\<lambda>item. Some (''Compra #'' @ str_int (pu_id purchase))) (puc_items purchase_data)"
    using movs(4) by (simp add: sid)
  have "list_all (\<lambda>q. 0 < q) (map pic_quantity (puc_items purchase_data))"
    using assms(1)
    by (auto simp: valid_PurchaseCreate_def valid_PurchaseItemCreate_def list_all_iff)
  then have "list_all (\<lambda>q. 0 < q) (map sm_quantity_change new_movements)"
    by (simp add: movs(2))
  then have f5: "list_all (\<lambda>m. 0 < sm_quantity_change m) new_movements"
    by (simp add: list_all_iff)
  show ?thesis
    apply (intro exI conjI)
                   apply (rule cs)
                  apply (rule tabs(1))
                 apply (rule purchases')
                apply (rule tabs(2))
               apply (rule tabs(3))
              apply (rule f1)
             apply (rule items(2))
            apply (rule items(3))
           apply (rule items(4))
          apply (rule items(5))
         apply (rule f3)
        apply (rule movs(1))
       apply (rule movs(2))
      apply (rule f5)
     apply (rule movs(3))
    apply (rule f4)
    done
qed

subsection \<open>The history query\<close>







subsection \<open>The ledger invariant\<close>

lemma movement_total_append:
  assumes "stock_movements d' = stock_movements d @ new"
    and "list_all (\<lambda>m. sm_product_id m = i) new"
  shows "movement_total j d' =
           movement_total j d + (if j = i then sum_list (map sm_quantity_change new) else 0)"
proof -
  have "filter (\<lambda>m. sm_product_id m = j) new = (if j = i then new else [])"
    using assms(2) by (induction new) auto
  then show ?thesis using assms(1) by (simp add: movement_total_def)
qed

lemma ledger_consistent_cong:
  "products d' = products d \<Longrightarrow> stock_movements d' = stock_movements d \<Longrightarrow>
   ledger_consistent d' = ledger_consistent d"
  by (simp add: ledger_consistent_def movement_total_def)

lemma ledger_update:
  assumes c: "ledger_consistent d"
    and p: "products d' = map (\<lambda>r. if p_id r = i then f r else r) (products d)"
    and id: "\<And>r. p_id (f r) = p_id r"
    and m: "stock_movements d' = stock_movements d @ new"
    and new: "list_all (\<lambda>m. sm_product_id m = i) new"
    and ex: "product_exists i d"
    and q: "\<And>r. r \<in> set (products d) \<Longrightarrow> p_id r = i \<Longrightarrow>
              p_quantity (f r) = movement_total i d + sum_list (map sm_quantity_change new)"
  shows "ledger_consistent d'"
proof -
  note mt = movement_total_append[OF m new]
  have ids: "map p_id (products d') = map p_id (products d)"
    by (simp add: p id)
  have "p_quantity r' = movement_total (p_id r') d'" if "r' \<in> set (products d')" for r'
  proof -
    from that p obtain r where r: "r \<in> set (products d)"
      and r': "r' = (if p_id r = i then f r else r)" by auto
    from c r have old: "p_quantity r = movement_total (p_id r) d"
      by (simp add: ledger_consistent_def list_all_iff)
    show ?thesis
    proof (cases "p_id r = i")
      case True
      with r' q[OF r True] show ?thesis by (simp add: mt id)
    next
      case False
      with r' old show ?thesis by (simp add: mt)
    qed
  qed
  moreover have "sm_product_id mv \<in> set (map p_id (products d'))"
    if "mv \<in> set (stock_movements d')" for mv
  proof -
    from that m consider "mv \<in> set (stock_movements d)" | "mv \<in> set new" by auto
    then show ?thesis
    proof cases
      case 1
      with c show ?thesis by (simp add: ledger_consistent_def list_all_iff ids)
    next
      case 2
      with new have "sm_product_id mv = i" by (simp add: list_all_iff)
      with ex show ?thesis by (simp add: ids product_exists_mem)
    qed
  qed
  ultimately show ?thesis by (simp add: ledger_consistent_def list_all_iff)
qed

lemma ledger_first_row:
  assumes "ledger_consistent d" and "find (\<lambda>r. p_id r = i) (products d) = Some product"
  shows "p_quantity product = movement_total i d" and "product_exists i d" and "p_id product = i"
proof -
  from assms(2) have "product \<in> set (products d)" "p_id product = i"
    by (auto simp: find_Some_iff)
  with assms(1) show "p_quantity product = movement_total i d" "p_id product = i"
    by (auto simp: ledger_consistent_def list_all_iff)
  from assms(2) show "product_exists i d" by (simp add: product_exists_def)
qed

lemma ledger_create:
  assumes c: "ledger_consistent d"
    and p: "products d' = products d @ [new_product]"
    and fresh: "p_id new_product = next_id (map p_id (products d))"
    and m: "stock_movements d' = stock_movements d @ new"
    and new: "list_all (\<lambda>m. sm_product_id m = p_id new_product) new"
    and q: "p_quantity new_product = sum_list (map sm_quantity_change new)"
  shows "ledger_consistent d'"
proof -
  note mt = movement_total_append[OF m new]
  have other: "p_id r \<noteq> p_id new_product" if "r \<in> set (products d)" for r
    using next_id_fresh[of "p_id r" "map p_id (products d)"] that fresh by auto
  have "sm_product_id mv \<noteq> p_id new_product" if "mv \<in> set (stock_movements d)" for mv
  proof -
    from c that obtain r where "r \<in> set (products d)" "sm_product_id mv = p_id r"
      by (auto simp: ledger_consistent_def list_all_iff)
    with other[of r] show ?thesis by simp
  qed
  then have "filter (\<lambda>m. sm_product_id m = p_id new_product) (stock_movements d) = []"
    by (auto simp: filter_empty_conv)
  then have zero: "movement_total (p_id new_product) d = 0"
    by (simp add: movement_total_def)
  have "p_quantity r = movement_total (p_id r) d'" if "r \<in> set (products d')" for r
  proof (cases "r \<in> set (products d)")
    case True
    with c have "p_quantity r = movement_total (p_id r) d"
      by (simp add: ledger_consistent_def list_all_iff)
    with other[OF True] show ?thesis by (simp add: mt)
  next
    case False
    with that p have "r = new_product" by simp
    then show ?thesis by (simp add: mt zero q)
  qed
  moreover have "sm_product_id mv \<in> set (map p_id (products d'))"
    if "mv \<in> set (stock_movements d')" for mv
  proof -
    from that m consider "mv \<in> set (stock_movements d)" | "mv \<in> set new" by auto
    then show ?thesis
    proof cases
      case 1
      with c show ?thesis by (auto simp: ledger_consistent_def list_all_iff p)
    next
      case 2
      with new show ?thesis by (simp add: list_all_iff p)
    qed
  qed
  ultimately show ?thesis by (simp add: ledger_consistent_def list_all_iff)
qed

lemma sale_lines_consistent:
  "ledger_consistent (pending db) \<Longrightarrow>
   sale_lines sale u now items total_amount db = (Inr t, db') \<Longrightarrow>
   ledger_consistent (pending db')"
proof (induction items arbitrary: total_amount db)
  case Nil
  then show ?case by simp
next
  case (Cons item rest)
  from Cons.prems(2) obtain product where
    Some: "product_by_id (sic_product_id item) db = Some product"
    by (cases "product_by_id (sic_product_id item) db") auto
  from Cons.prems(2) Some have ok: "\<not> p_quantity product < sic_quantity item"
    by (auto split: if_splits)
  from sale_lines_step[OF Some ok, of sale u now rest total_amount]
  obtain acc mv db3 where
    step: "sale_lines sale u now (item # rest) total_amount db =
             sale_lines sale u now rest acc db3"
    and mv: "sm_product_id mv = sic_product_id item" "sm_quantity_change mv = - sic_quantity item"
    and movs: "stock_movements (pending db3) = stock_movements (pending db) @ [mv]"
    and prods: "products (pending db3) =
       map (\<lambda>r. if p_id r = sic_product_id item
                then r\<lparr>p_quantity := p_quantity product - sic_quantity item\<rparr> else r)
         (products (pending db))"
    by blast
  note first = ledger_first_row[OF Cons.prems(1) Some[unfolded product_by_id_def]]
  have "ledger_consistent (pending db3)"
    by (rule ledger_update[OF Cons.prems(1) prods _ movs])
       (simp_all add: mv first)
  moreover from step Cons.prems(2) have "sale_lines sale u now rest acc db3 = (Inr t, db')"
    by simp
  ultimately show ?case by (rule Cons.IH)
qed

lemma purchase_lines_consistent:
  "ledger_consistent (pending db) \<Longrightarrow>
   purchase_lines purchase u now items total_amount db = (Inr t, db') \<Longrightarrow>
   ledger_consistent (pending db')"
proof (induction items arbitrary: total_amount db)
  case Nil
  then show ?case by simp
next
  case (Cons item rest)
  from Cons.prems(2) obtain product where
    Some: "product_by_id (pic_product_id item) db = Some product"
    by (cases "product_by_id (pic_product_id item) db") auto
  from purchase_lines_step[OF Some, of purchase u now rest total_amount]
  obtain acc mv db3 where
    step: "purchase_lines purchase u now (item # rest) total_amount db =
             purchase_lines purchase u now rest acc db3"
    and mv: "sm_product_id mv = pic_product_id item" "sm_quantity_change mv = pic_quantity item"
    and movs: "stock_movements (pending db3) = stock_movements (pending db) @ [mv]"
    and prods: "products (pending db3) =
       map (\<lambda>r. if p_id r = pic_product_id item
                then r\<lparr>p_quantity := p_quantity product + pic_quantity item\<rparr> else r)
         (products (pending db))"
    by blast
  note first = ledger_first_row[OF Cons.prems(1) Some[unfolded product_by_id_def]]
  have "ledger_consistent (pending db3)"
    by (rule ledger_update[OF Cons.prems(1) prods _ movs])
       (simp_all add: mv first)
  moreover from step Cons.prems(2)
  have "purchase_lines purchase u now rest acc db3 = (Inr t, db')"
    by simp
  ultimately show ?case by (rule Cons.IH)
qed

lemma create_sale_consistent:
  assumes "ledger_consistent d"
  shows "ledger_consistent (committed (snd (create_sale sale_data u now (open_session d))))"
proof (cases "sc_items sale_data = []")
  case True
  with assms show ?thesis by (simp add: create_sale_def open_session_def)
next
  case ne: False
  define n where "n = next_id (map sale_id (sales (pending (open_session d))))"
  define db1 where "db1 = add_sale \<lparr>sale_id = n,
                sale_customer_name = sc_customer_name sale_data, sale_total_amount = 0,
                sale_payment_method = sc_payment_method sale_data, sale_created_by = u\<rparr>
                (open_session d)"
  have "ledger_consistent (pending db1)"
    by (rule ledger_consistent_cong[THEN iffD2, OF _ _ assms])
       (simp_all add: db1_def add_sale_def open_session_def)
  moreover have "committed db1 = d"
    by (simp add: db1_def add_sale_def open_session_def)
  ultimately have db1: "committed db1 = d" "ledger_consistent (pending db1)"
    by simp_all
  show ?thesis
  proof (cases "sale_lines n u now (sc_items sale_data) 0 db1")
    case (Pair res db2)
    show ?thesis
    proof (cases res)
      case (Inl e)
      with Pair have fail: "sale_lines n u now (sc_items sale_data) 0 db1 = (Inl e, db2)"
        by simp
      from fail have "create_sale sale_data u now (open_session d) = (Inl e, db2)"
        unfolding db1_def n_def by (rule create_sale_error[OF ne])
      with sale_lines_failure[OF fail] db1 assms show ?thesis by simp
    next
      case (Inr t)
      with Pair have succ: "sale_lines n u now (sc_items sale_data) 0 db1 = (Inr t, db2)"
        by simp
      from succ have "create_sale sale_data u now (open_session d) =
        (Inr \<lparr>sale_id = n, sale_customer_name = sc_customer_name sale_data,
              sale_total_amount = t, sale_payment_method = sc_payment_method sale_data,
              sale_created_by = u\<rparr>,
         commit (update_sale_row n (\<lambda>r. r\<lparr>sale_total_amount := t\<rparr>) db2))"
        unfolding db1_def n_def by (rule create_sale_result[OF ne])
      moreover have c2: "ledger_consistent (pending db2)"
        using db1(2) succ by (rule sale_lines_consistent)
      have "ledger_consistent (pending (update_sale_row n (\<lambda>r. r\<lparr>sale_total_amount := t\<rparr>) db2))"
        by (rule ledger_consistent_cong[THEN iffD2, OF _ _ c2])
           (simp_all add: update_sale_row_def)
      ultimately show ?thesis
        by (simp add: commit_def)
    qed
  qed
qed

lemma create_purchase_consistent:
  assumes "ledger_consistent d"
  shows "ledger_consistent (committed (snd (create_purchase purchase_data u now (open_session d))))"
proof (cases "puc_items purchase_data = []")
  case True
  with assms show ?thesis by (simp add: create_purchase_def open_session_def)
next
  case ne: False
  define n where "n = next_id (map pu_id (purchases (pending (open_session d))))"
  define db1 where "db1 = add_purchase \<lparr>pu_id = n,
                pu_supplier_name = puc_supplier_name purchase_data, pu_total_amount = 0,
                pu_reference = puc_reference purchase_data, pu_created_by = u\<rparr>
                (open_session d)"
  have "ledger_consistent (pending db1)"
    by (rule ledger_consistent_cong[THEN iffD2, OF _ _ assms])
       (simp_all add: db1_def add_purchase_def open_session_def)
  moreover have "committed db1 = d"
    by (simp add: db1_def add_purchase_def open_session_def)
  ultimately have db1: "committed db1 = d" "ledger_consistent (pending db1)"
    by simp_all
  show ?thesis
  proof (cases "purchase_lines n u now (puc_items purchase_data) 0 db1")
    case (Pair res db2)
    show ?thesis
    proof (cases res)
      case (Inl e)
      with Pair have fail: "purchase_lines n u now (puc_items purchase_data) 0 db1 = (Inl e, db2)"
        by simp
      from fail have "create_purchase purchase_data u now (open_session d) = (Inl e, db2)"
        unfolding db1_def n_def by (rule create_purchase_error[OF ne])
      with purchase_lines_failure[OF fail] db1 assms show ?thesis by simp
    next
      case (Inr t)
      with Pair have succ: "purchase_lines n u now (puc_items purchase_data) 0 db1 = (Inr t, db2)"
        by simp
      from succ have "create_purchase purchase_data u now (open_session d) =
        (Inr \<lparr>pu_id = n, pu_supplier_name = puc_supplier_name purchase_data,
              pu_total_amount = t, pu_reference = puc_reference purchase_data,
              pu_created_by = u\<rparr>,
         commit (update_purchase_row n (\<lambda>r. r\<lparr>pu_total_amount := t\<rparr>) db2))"
        unfolding db1_def n_def by (rule create_purchase_result[OF ne])
      moreover have c2: "ledger_consistent (pending db2)"
        using db1(2) succ by (rule purchase_lines_consistent)
      have "ledger_consistent
              (pending (update_purchase_row n (\<lambda>r. r\<lparr>pu_total_amount := t\<rparr>) db2))"
        by (rule ledger_consistent_cong[THEN iffD2, OF _ _ c2])
           (simp_all add: update_purchase_row_def)
      ultimately show ?thesis
        by (simp add: commit_def)
    qed
  qed
qed

lemma create_stock_movement_consistent:
  assumes "ledger_consistent d"
  shows "ledger_consistent
           (committed (snd (create_stock_movement movement_data u now (open_session d))))"
proof (cases "find (\<lambda>r. p_id r = smc_product_id movement_data) (products d)")
  case None
  with assms show ?thesis
    by (simp add: create_stock_movement_def product_by_id_def open_session_def)
next
  case (Some product)
  note first = ledger_first_row[OF assms Some]
  show ?thesis
  proof (cases "smc_quantity_change movement_data < 0 \<and>
                p_quantity product + smc_quantity_change movement_data < 0")
    case True
    with Some assms show ?thesis
      by (simp add: create_stock_movement_def product_by_id_def open_session_def)
  next
    case False
    define mv where "mv =
       \<lparr>sm_id = next_id (map sm_id (stock_movements d)),
        sm_product_id = smc_product_id movement_data,
        sm_quantity_change = smc_quantity_change movement_data,
        sm_movement_type = smc_movement_type movement_data,
        sm_reference = smc_reference movement_data,
        sm_notes = smc_notes movement_data,
        sm_created_by = Some u, sm_movement_date = now\<rparr>"
    define d' where
      "d' = committed (snd (create_stock_movement movement_data u now (open_session d)))"
    have p: "products d' =
        map (\<lambda>r. if p_id r = smc_product_id movement_data
                 then r\<lparr>p_quantity := p_quantity product + smc_quantity_change movement_data\<rparr>
                 else r) (products d)"
      and m: "stock_movements d' = stock_movements d @ [mv]"
      using Some False first(3)
      by (auto simp: d'_def mv_def create_stock_movement_def product_by_id_def
            open_session_def Let_def session_ops)
    have "ledger_consistent d'"
      by (rule ledger_update[OF assms p _ m]) (simp_all add: mv_def first)
    then show ?thesis by (simp add: d'_def)
  qed
qed

lemma update_product_consistent:
  assumes "ledger_consistent d"
  shows "ledger_consistent
           (committed (snd (update_product product_id product_data u now (open_session d))))"
proof (cases "find (\<lambda>r. p_id r = product_id) (products d)")
  case None
  with assms show ?thesis
    by (simp add: update_product_def product_by_id_def open_session_def)
next
  case (Some product)
  note first = ledger_first_row[OF assms Some]
  define d' where
    "d' = committed (snd (update_product product_id product_data u now (open_session d)))"
  have same: "p_quantity r = movement_total product_id d"
    if "r \<in> set (products d)" "p_id r = product_id" for r
    using assms that by (auto simp: ledger_consistent_def list_all_iff)
  consider (unchanged) "d' = d"
    | (plain) "products d' =
          map (\<lambda>r. if p_id r = product_id then setattrs product_data r else r) (products d)"
        "stock_movements d' = stock_movements d @ []"
        "upd_quantity product_data = Unset \<or>
         upd_quantity product_data = Given (Some (p_quantity product))"
    | (moved) q mv where "products d' =
          map (\<lambda>r. if p_id r = product_id then setattrs product_data r else r) (products d)"
        "stock_movements d' = stock_movements d @ [mv]"
        "upd_quantity product_data = Given (Some q)"
        "sm_product_id mv = product_id" "sm_quantity_change mv = q - p_quantity product"
  proof (cases "name_taken product_data product (open_session d) \<or>
                upd_quantity product_data = Given None \<or>
                upd_name product_data = Given None \<or> upd_price product_data = Given None")
    case True
    then have "d' = d"
      using Some
      by (auto simp: d'_def update_product_def commit_product_def product_by_id_def
            open_session_def Let_def split: field.splits option.splits)
    then show ?thesis by (rule unchanged)
  next
    case ok: False
    show ?thesis
    proof (cases "upd_quantity product_data")
      case Unset
      with ok Some first(3) show ?thesis
        by (intro plain)
           (simp_all add: d'_def update_product_def commit_product_def product_by_id_def
              open_session_def Let_def session_ops)
    next
      case (Given v)
      with ok obtain q where q: "upd_quantity product_data = Given (Some q)"
        by (cases v) auto
      show ?thesis
      proof (cases "q = p_quantity product")
        case True
        with ok Some first(3) q show ?thesis
          by (intro plain)
             (simp_all add: d'_def update_product_def commit_product_def product_by_id_def
                open_session_def Let_def session_ops)
      next
        case False
        define mv where "mv =
           \<lparr>sm_id = next_id (map sm_id (stock_movements d)),
            sm_product_id = product_id,
            sm_quantity_change = q - p_quantity product,
            sm_movement_type = ''ajuste'', sm_reference = None,
            sm_notes = Some (''Ajuste manual: '' @ str_int (p_quantity product)
                              @ '' -> '' @ str_int q),
            sm_created_by = Some u, sm_movement_date = now\<rparr>"
        from False ok Some first(3) q show ?thesis
          by (intro moved[of mv q])
             (simp_all add: d'_def mv_def update_product_def commit_product_def
                product_by_id_def open_session_def Let_def session_ops)
      qed
    qed
  qed
  then have "ledger_consistent d'"
  proof cases
    case unchanged
    with assms show ?thesis by simp
  next
    case plain
    show ?thesis
      by (rule ledger_update[OF assms plain(1) _ plain(2)])
         (use plain(3) same first in \<open>auto simp: setattrs_def\<close>)
  next
    case (moved q mv)
    show ?thesis
      by (rule ledger_update[OF assms moved(1) _ moved(2)])
         (use moved(3-5) same first in \<open>auto simp: setattrs_def\<close>)
  qed
  then show ?thesis by (simp add: d'_def)
qed

lemma create_product_consistent:
  assumes "ledger_consistent d" and "valid_ProductCreate product_data"
  shows "ledger_consistent
           (committed (snd (create_product product_data u now (open_session d))))"
proof (cases "find (\<lambda>r. p_name r = pc_name product_data) (products d)")
  case (Some existing)
  with assms show ?thesis
    by (simp add: create_product_def product_by_name_def open_session_def)
next
  case None
  define d' where
    "d' = committed (snd (create_product product_data u now (open_session d)))"
  define new_product where "new_product =
     \<lparr>p_id = next_id (map p_id (products d)), p_name = pc_name product_data,
      p_description = pc_description product_data, p_price = pc_price product_data,
      p_quantity = pc_quantity product_data\<rparr>"
  define new where "new =
     (if pc_quantity product_data > 0
      then [\<lparr>sm_id = next_id (map sm_id (stock_movements d)),
              sm_product_id = p_id new_product,
              sm_quantity_change = pc_quantity product_data,
              sm_movement_type = ''inventario_inicial'', sm_reference = None,
              sm_notes = Some ''Inventario inicial al crear el producto'',
              sm_created_by = Some u, sm_movement_date = now\<rparr>]
      else [])"
  have p: "products d' = products d @ [new_product]"
    and m: "stock_movements d' = stock_movements d @ new"
    using None
    by (simp_all add: d'_def new_product_def new_def create_product_def product_by_name_def
          open_session_def Let_def session_ops)
  from assms(2) have "0 \<le> pc_quantity product_data"
    by (simp add: valid_ProductCreate_def)
  then have q: "p_quantity new_product = sum_list (map sm_quantity_change new)"
    by (simp add: new_def new_product_def)
  have "ledger_consistent d'"
    by (rule ledger_create[OF assms(1) p _ m _ q]) (simp_all add: new_def new_product_def)
  then show ?thesis by (simp add: d'_def)
qed

lemma serve_consistent:
  "ledger_consistent d \<Longrightarrow> ledger_consistent (serve rq u now d)"
  by (cases rq)
     (simp_all add: create_product_consistent update_product_consistent
        create_stock_movement_consistent create_sale_consistent create_purchase_consistent)

lemma run_consistent:
  "ledger_consistent d \<Longrightarrow> ledger_consistent (run requests d)"
  by (induction requests arbitrary: d) (auto simp: serve_consistent)

lemma empty_database_consistent: "ledger_consistent empty_database"
  by (simp add: ledger_consistent_def empty_database_def)

section \<open>Properties\<close>

subsection \<open>The ledger invariant (C1)\<close>

text \<open>
  C1, as the code has it. The starting quantity of a product is itself recorded as a
  movement (\<open>inventario_inicial\<close>) when it is not zero, and every later change of the
  quantity comes with a movement of the same delta. So after every sequence of requests
  (product creation, product update, stock movement, sale, purchase), served one after
  another on a consistent store (the empty store is one), the quantity of every product
  is the sum of the deltas of all of its movements.
\<close>

theorem quantity_is_sum_of_movements:
  assumes "ledger_consistent d" and "p \<in> set (products (run requests d))"
  shows "p_quantity p = movement_total (p_id p) (run requests d)"
  using run_consistent[OF assms(1), of requests] assms(2)
  by (simp add: ledger_consistent_def list_all_iff)

theorem quantity_is_sum_of_movements_witness:
  "ledger_consistent empty_database \<and>
   products (run example_requests empty_database) =
     [\<lparr>p_id = 1, p_name = ''A'', p_description = None, p_price = 10, p_quantity = 10\<rparr>] \<and>
   map sm_quantity_change (stock_movements (run example_requests empty_database))
     = [5, - 2, - 1, 5, 3] \<and>
   movement_total 1 (run example_requests empty_database) = 10"
proof -
  have ps: "products (run example_requests empty_database) =
     [\<lparr>p_id = 1, p_name = ''A'', p_description = None, p_price = 10, p_quantity = 10\<rparr>]"
    and ms: "map sm_quantity_change (stock_movements (run example_requests empty_database))
     = [5, - 2, - 1, 5, 3]"
    by (simp_all add: example_requests_def example_product_def example_movement_def
          example_sale_def example_adjustment_def example_purchase_def empty_database_def
          valid_ProductCreate_def valid_ProductUpdate_def valid_StockMovementCreate_def
          valid_SaleCreate_def valid_SaleItemCreate_def valid_PurchaseCreate_def
          valid_PurchaseItemCreate_def
          create_product_def update_product_def commit_product_def name_taken_def setattrs_def
          create_stock_movement_def create_sale_def create_purchase_def
          product_by_id_def product_by_name_def open_session_def Let_def session_ops next_id_def)
  have "p_quantity \<lparr>p_id = 1, p_name = ''A'', p_description = None, p_price = 10, p_quantity = 10\<rparr>
      = movement_total
          (p_id \<lparr>p_id = 1, p_name = ''A'', p_description = None, p_price = 10, p_quantity = 10\<rparr>)
          (run example_requests empty_database)"
    by (rule quantity_is_sum_of_movements[OF empty_database_consistent]) (simp add: ps)
  then show ?thesis using ps ms empty_database_consistent by simp
qed

text \<open>
  C1, as stated. Product A is created with an initial quantity of 5 in an empty store.
  Its quantity is 5 and its one movement, the \<open>inventario_inicial\<close> one, has delta 5: the
  initial quantity plus the sum of all its movements is 10, not 5.
\<close>

theorem initial_plus_movements_counterexample:
  "products (run [(POST_products (example_product ''A'' 5), 7, 100)] empty_database) =
     [\<lparr>p_id = 1, p_name = ''A'', p_description = None, p_price = 10, p_quantity = 5\<rparr>] \<and>
   pc_quantity (example_product ''A'' 5) = 5 \<and>
   movement_total 1 (run [(POST_products (example_product ''A'' 5), 7, 100)] empty_database) = 5 \<and>
   p_quantity (hd (products (run [(POST_products (example_product ''A'' 5), 7, 100)] empty_database)))
     \<noteq> pc_quantity (example_product ''A'' 5)
       + movement_total 1 (run [(POST_products (example_product ''A'' 5), 7, 100)] empty_database)"
  by (simp add: example_product_def empty_database_def valid_ProductCreate_def
        create_product_def product_by_name_def open_session_def Let_def session_ops next_id_def
        movement_total_def)

subsection \<open>A failed sale persists nothing (C2)\<close>

text \<open>
  C2. A line of a sale fails when its product is missing or when, by the time the line is
  reached, the quantity of its product is below the quantity the line asks for; for a
  valid sale some line fails exactly when \<open>sale_lines_ok\<close> does not hold (lemma
  \<open>sale_lines_succeed_iff\<close>). Then recording the sale fails, with \<open>NotFound\<close> or
  \<open>InsufficientStock\<close>. And whenever recording a sale fails, nothing persists: the
  committed data is the data before the call, so that every product's quantity, the
  number of movements and the number of line items are as before; the session has
  committed nothing, and its open transaction is rolled back to the data before the call.
\<close>

theorem create_sale_failure_persists_nothing:
  "(valid_SaleCreate sale_data \<and> \<not> sale_lines_ok (sc_items sale_data) d \<longrightarrow>
      (\<exists>e db'. create_sale sale_data u now (open_session d) = (Inl e, db') \<and>
         (e = NotFound \<or> e = InsufficientStock))) \<and>
   (\<forall>e db'. create_sale sale_data u now (open_session d) = (Inl e, db') \<longrightarrow>
      committed db' = d \<and> pending db' = d \<and> commit_log db' = [] \<and>
      map p_quantity (products (committed db')) = map p_quantity (products d) \<and>
      length (stock_movements (committed db')) = length (stock_movements d) \<and>
      length (sale_items (committed db')) = length (sale_items d))"
proof (rule conjI)
  show "valid_SaleCreate sale_data \<and> \<not> sale_lines_ok (sc_items sale_data) d \<longrightarrow>
      (\<exists>e db'. create_sale sale_data u now (open_session d) = (Inl e, db') \<and>
         (e = NotFound \<or> e = InsufficientStock))"
  proof (rule impI)
    assume "valid_SaleCreate sale_data \<and> \<not> sale_lines_ok (sc_items sale_data) d"
    then have v: "valid_SaleCreate sale_data"
      and nok: "\<not> sale_lines_ok (sc_items sale_data) d"
      by simp_all
    from nok have ne: "sc_items sale_data \<noteq> []"
      by (auto simp: sale_lines_ok_def)
    define n where "n = next_id (map sale_id (sales (pending (open_session d))))"
    define db1 where "db1 = add_sale \<lparr>sale_id = n,
                  sale_customer_name = sc_customer_name sale_data, sale_total_amount = 0,
                  sale_payment_method = sc_payment_method sale_data, sale_created_by = u\<rparr>
                  (open_session d)"
    have "products (pending db1) = products d"
      by (simp add: db1_def add_sale_def open_session_def)
    with nok have "\<not> sale_lines_ok (sc_items sale_data) (pending db1)"
      by (simp add: sale_lines_ok_def)
    with sale_lines_succeed_iff[OF valid_sale_nonneg[OF v], of n u now 0 db1]
    obtain e db2 where fail: "sale_lines n u now (sc_items sale_data) 0 db1 = (Inl e, db2)"
      by (cases "sale_lines n u now (sc_items sale_data) 0 db1"; case_tac a) auto
    from fail have "create_sale sale_data u now (open_session d) = (Inl e, db2)"
      unfolding db1_def n_def by (rule create_sale_error[OF ne])
    with sale_lines_failure[OF fail]
    show "\<exists>e db'. create_sale sale_data u now (open_session d) = (Inl e, db') \<and>
           (e = NotFound \<or> e = InsufficientStock)"
      by blast
  qed
next
  show "\<forall>e db'. create_sale sale_data u now (open_session d) = (Inl e, db') \<longrightarrow>
      committed db' = d \<and> pending db' = d \<and> commit_log db' = [] \<and>
      map p_quantity (products (committed db')) = map p_quantity (products d) \<and>
      length (stock_movements (committed db')) = length (stock_movements d) \<and>
      length (sale_items (committed db')) = length (sale_items d)"
    by (auto dest: create_sale_error_unchanged)
qed

theorem create_sale_failure_persists_nothing_witness:
  "valid_SaleCreate (example_sale [(1, 2), (2, 9)]) \<and>
   \<not> sale_lines_ok (sc_items (example_sale [(1, 2), (2, 9)])) example_database \<and>
   create_sale (example_sale [(1, 2), (2, 9)]) 7 300 (open_session example_database)
     = (Inl InsufficientStock, open_session example_database) \<and>
   create_sale (example_sale [(9, 1)]) 7 300 (open_session example_database)
     = (Inl NotFound, open_session example_database)"
  using create_sale_failure_persists_nothing
          [of "example_sale [(1, 2), (2, 9)]" example_database 7 300]
  by (simp add: valid_SaleCreate_def valid_SaleItemCreate_def sale_lines_ok_def requested_def
        create_sale_def example_sale_def example_database_def open_session_def
        product_by_id_def Let_def session_ops)

subsection \<open>Failures of a stock movement (C3)\<close>

text \<open>
  C3. Applying a signed delta fails with \<open>NotFound\<close> when the product does not exist, and
  with \<open>InsufficientStock\<close> when the delta is negative and the current quantity plus the
  delta is below zero. In both cases the session is returned exactly as it was received:
  no movement is written and no quantity changes, neither in the open transaction nor in
  the committed data.
\<close>

theorem create_stock_movement_failures:
  "(product_by_id (smc_product_id movement_data) db = None \<longrightarrow>
      create_stock_movement movement_data current_user now db = (Inl NotFound, db)) \<and>
   (\<forall>product. product_by_id (smc_product_id movement_data) db = Some product \<and>
      smc_quantity_change movement_data < 0 \<and>
      p_quantity product + smc_quantity_change movement_data < 0 \<longrightarrow>
      create_stock_movement movement_data current_user now db = (Inl InsufficientStock, db))"
  by (simp add: create_stock_movement_def)

theorem create_stock_movement_failures_witness:
  "create_stock_movement (example_movement 1 (- 5)) 7 300 (open_session example_database)
     = (Inl InsufficientStock, open_session example_database) \<and>
   create_stock_movement (example_movement 9 (- 5)) 7 300 (open_session example_database)
     = (Inl NotFound, open_session example_database)"
  using create_stock_movement_failures
          [of "example_movement 1 (- 5)" "open_session example_database" 7 300]
        create_stock_movement_failures
          [of "example_movement 9 (- 5)" "open_session example_database" 7 300]
  by (simp add: product_by_id_def open_session_def example_database_def example_movement_def)

subsection \<open>What a recorded sale holds (C4)\<close>

text \<open>
  C4. A sale whose lines all name existing products with sufficient stock is recorded:
  the header is stored with a total equal to the sum of the subtotals of its new line
  items; there is one line item per line, in order, with the product's price in the table
  as unit price and unit price times quantity as subtotal; and there is one new stock
  movement per line, in order, with minus the line's quantity as delta, kind \<open>venta\<close> and
  the reference \<open>Venta #\<close> followed by the header's id.
\<close>

theorem create_sale_records_lines:
  assumes "valid_SaleCreate sale_data" and "sc_items sale_data \<noteq> []"
    and "sale_lines_ok (sc_items sale_data) d"
  shows "\<exists>sale db' new_items new_movements.
     create_sale sale_data u now (open_session d) = (Inr sale, db') \<and>
     committed db' = pending db' \<and>
     sales (committed db') = sales d @ [sale] \<and>
     sale_items (committed db') = sale_items d @ new_items \<and>
     stock_movements (committed db') = stock_movements d @ new_movements \<and>
     map si_sale_id new_items = map (\<lambda>item. sale_id sale) (sc_items sale_data) \<and>
     map si_product_id new_items = map sic_product_id (sc_items sale_data) \<and>
     map si_quantity new_items = map sic_quantity (sc_items sale_data) \<and>
     map (\<lambda>r. Some (si_unit_price r)) new_items =
       map (\<lambda>item. current_price (sic_product_id item) d) (sc_items sale_data) \<and>
     map si_subtotal new_items = map (\<lambda>r. si_unit_price r * of_int (si_quantity r)) new_items \<and>
     sale_total_amount sale = sum_list (map si_subtotal new_items) \<and>
     map sm_product_id new_movements = map sic_product_id (sc_items sale_data) \<and>
     map sm_quantity_change new_movements = map (\<lambda>item. - sic_quantity item) (sc_items sale_data) \<and>
     map sm_movement_type new_movements = map (\<lambda>item. ''venta'') (sc_items sale_data) \<and>
     map sm_reference new_movements =
       map (\<lambda>item. Some (''Venta #'' @ str_int (sale_id sale))) (sc_items sale_data)"
  using assms by (rule create_sale_success)

theorem create_sale_records_lines_witness:
  "valid_SaleCreate (example_sale [(1, 2), (2, 1)]) \<and>
   sale_lines_ok (sc_items (example_sale [(1, 2), (2, 1)])) example_database \<and>
   fst (create_sale (example_sale [(1, 2), (2, 1)]) 7 300 (open_session example_database)) =
     Inr \<lparr>sale_id = 1, sale_customer_name = None, sale_total_amount = 25,
          sale_payment_method = ''efectivo'', sale_created_by = 7\<rparr> \<and>
   map si_subtotal (sale_items (committed (snd
     (create_sale (example_sale [(1, 2), (2, 1)]) 7 300 (open_session example_database)))))
     = [20, 5] \<and>
   map (\<lambda>m. (sm_quantity_change m, sm_movement_type m, sm_reference m))
     (drop 2 (stock_movements (committed (snd
       (create_sale (example_sale [(1, 2), (2, 1)]) 7 300 (open_session example_database))))))
     = [(- 2, ''venta'', Some ''Venta #1''), (- 1, ''venta'', Some ''Venta #1'')]"
proof -
  have v: "valid_SaleCreate (example_sale [(1, 2), (2, 1)])"
    by (simp add: valid_SaleCreate_def valid_SaleItemCreate_def example_sale_def)
  have ne: "sc_items (example_sale [(1, 2), (2, 1)]) \<noteq> []"
    by (simp add: example_sale_def)
  have ok: "sale_lines_ok (sc_items (example_sale [(1, 2), (2, 1)])) example_database"
    by (simp add: sale_lines_ok_def requested_def example_sale_def example_database_def)
  show ?thesis
    using create_sale_records_lines[OF v ne ok, of 7 300 ] v ok
    by (simp add: create_sale_def example_sale_def example_database_def open_session_def
          product_by_id_def Let_def session_ops next_id_def str_int_def str_nat.simps
          digit_char_def)
qed

subsection \<open>Subtotals of purchases and sales (C5)\<close>

text \<open>
  C5. A recorded purchase has one line item per line whose unit price is the price the
  caller supplied and whose subtotal is that price times the quantity, whatever the
  product's price in the table is; its movements carry the quantities as positive
  deltas; and the header, as returned and as stored by the commit, has the sum of the
  subtotals as its total. A recorded sale has line items whose unit price is the
  product's price in the table at the time of the sale and whose subtotal is that price
  times the quantity, and its header, as returned and as stored by the commit, has the
  sum of those subtotals as its total.
\<close>

theorem purchase_and_sale_subtotals:
  "(valid_PurchaseCreate purchase_data \<and> puc_items purchase_data \<noteq> [] \<and>
    list_all (\<lambda>item. product_exists (pic_product_id item) d) (puc_items purchase_data) \<longrightarrow>
    (\<exists>purchase db' new_items new_movements.
       create_purchase purchase_data u now (open_session d) = (Inr purchase, db') \<and>
       committed db' = pending db' \<and>
       purchases (committed db') = purchases d @ [purchase] \<and>
       purchase_items (committed db') = purchase_items d @ new_items \<and>
       stock_movements (committed db') = stock_movements d @ new_movements \<and>
       map pi_purchase_id new_items = map (\<lambda>item. pu_id purchase) (puc_items purchase_data) \<and>
       map pi_product_id new_items = map pic_product_id (puc_items purchase_data) \<and>
       map pi_quantity new_items = map pic_quantity (puc_items purchase_data) \<and>
       map pi_unit_price new_items = map pic_unit_price (puc_items purchase_data) \<and>
       map pi_subtotal new_items =
         map (\<lambda>item. pic_unit_price item * of_int (pic_quantity item)) (puc_items purchase_data) \<and>
       pu_total_amount purchase = sum_list (map pi_subtotal new_items) \<and>
       map sm_product_id new_movements = map pic_product_id (puc_items purchase_data) \<and>
       map sm_quantity_change new_movements = map pic_quantity (puc_items purchase_data) \<and>
       list_all (\<lambda>m. 0 < sm_quantity_change m) new_movements)) \<and>
   (valid_SaleCreate sale_data \<and> sc_items sale_data \<noteq> [] \<and>
    sale_lines_ok (sc_items sale_data) d \<longrightarrow>
    (\<exists>sale db' new_items.
       create_sale sale_data u now (open_session d) = (Inr sale, db') \<and>
       committed db' = pending db' \<and>
       sales (committed db') = sales d @ [sale] \<and>
       sale_items (committed db') = sale_items d @ new_items \<and>
       map si_sale_id new_items = map (\<lambda>item. sale_id sale) (sc_items sale_data) \<and>
       map si_product_id new_items = map sic_product_id (sc_items sale_data) \<and>
       map si_quantity new_items = map sic_quantity (sc_items sale_data) \<and>
       map (\<lambda>r. Some (si_unit_price r)) new_items =
         map (\<lambda>item. current_price (sic_product_id item) d) (sc_items sale_data) \<and>
       map si_subtotal new_items = map (\<lambda>r. si_unit_price r * of_int (si_quantity r)) new_items \<and>
       sale_total_amount sale = sum_list (map si_subtotal new_items)))"
proof (rule conjI)
  show "valid_PurchaseCreate purchase_data \<and> puc_items purchase_data \<noteq> [] \<and>
    list_all (\<lambda>item. product_exists (pic_product_id item) d) (puc_items purchase_data) \<longrightarrow>
    (\<exists>purchase db' new_items new_movements.
       create_purchase purchase_data u now (open_session d) = (Inr purchase, db') \<and>
       committed db' = pending db' \<and>
       purchases (committed db') = purchases d @ [purchase] \<and>
       purchase_items (committed db') = purchase_items d @ new_items \<and>
       stock_movements (committed db') = stock_movements d @ new_movements \<and>
       map pi_purchase_id new_items = map (\<lambda>item. pu_id purchase) (puc_items purchase_data) \<and>
       map pi_product_id new_items = map pic_product_id (puc_items purchase_data) \<and>
       map pi_quantity new_items = map pic_quantity (puc_items purchase_data) \<and>
       map pi_unit_price new_items = map pic_unit_price (puc_items purchase_data) \<and>
       map pi_subtotal new_items =
         map (\<lambda>item. pic_unit_price item * of_int (pic_quantity item)) (puc_items purchase_data) \<and>
       pu_total_amount purchase = sum_list (map pi_subtotal new_items) \<and>
       map sm_product_id new_movements = map pic_product_id (puc_items purchase_data) \<and>
       map sm_quantity_change new_movements = map pic_quantity (puc_items purchase_data) \<and>
       list_all (\<lambda>m. 0 < sm_quantity_change m) new_movements)"
  proof (rule impI)
    assume "valid_PurchaseCreate purchase_data \<and> puc_items purchase_data \<noteq> [] \<and>
      list_all (\<lambda>item. product_exists (pic_product_id item) d) (puc_items purchase_data)"
    then have a: "valid_PurchaseCreate purchase_data" "puc_items purchase_data \<noteq> []"
      "list_all (\<lambda>item. product_exists (pic_product_id item) d) (puc_items purchase_data)"
      by simp_all
    from create_purchase_success[OF a, of u now] show "\<exists>purchase db' new_items new_movements.
       create_purchase purchase_data u now (open_session d) = (Inr purchase, db') \<and>
       committed db' = pending db' \<and>
       purchases (committed db') = purchases d @ [purchase] \<and>
       purchase_items (committed db') = purchase_items d @ new_items \<and>
       stock_movements (committed db') = stock_movements d @ new_movements \<and>
       map pi_purchase_id new_items = map (\<lambda>item. pu_id purchase) (puc_items purchase_data) \<and>
       map pi_product_id new_items = map pic_product_id (puc_items purchase_data) \<and>
       map pi_quantity new_items = map pic_quantity (puc_items purchase_data) \<and>
       map pi_unit_price new_items = map pic_unit_price (puc_items purchase_data) \<and>
       map pi_subtotal new_items =
         map (\<lambda>item. pic_unit_price item * of_int (pic_quantity item)) (puc_items purchase_data) \<and>
       pu_total_amount purchase = sum_list (map pi_subtotal new_items) \<and>
       map sm_product_id new_movements = map pic_product_id (puc_items purchase_data) \<and>
       map sm_quantity_change new_movements = map pic_quantity (puc_items purchase_data) \<and>
       list_all (\<lambda>m. 0 < sm_quantity_change m) new_movements"
      by blast
  qed
next
  show "valid_SaleCreate sale_data \<and> sc_items sale_data \<noteq> [] \<and>
    sale_lines_ok (sc_items sale_data) d \<longrightarrow>
    (\<exists>sale db' new_items.
       create_sale sale_data u now (open_session d) = (Inr sale, db') \<and>
       committed db' = pending db' \<and>
       sales (committed db') = sales d @ [sale] \<and>
       sale_items (committed db') = sale_items d @ new_items \<and>
       map si_sale_id new_items = map (\<lambda>item. sale_id sale) (sc_items sale_data) \<and>
       map si_product_id new_items = map sic_product_id (sc_items sale_data) \<and>
       map si_quantity new_items = map sic_quantity (sc_items sale_data) \<and>
       map (\<lambda>r. Some (si_unit_price r)) new_items =
         map (\<lambda>item. current_price (sic_product_id item) d) (sc_items sale_data) \<and>
       map si_subtotal new_items = map (\<lambda>r. si_unit_price r * of_int (si_quantity r)) new_items \<and>
       sale_total_amount sale = sum_list (map si_subtotal new_items))"
  proof (rule impI)
    assume "valid_SaleCreate sale_data \<and> sc_items sale_data \<noteq> [] \<and>
      sale_lines_ok (sc_items sale_data) d"
    then have a: "valid_SaleCreate sale_data" "sc_items sale_data \<noteq> []"
      "sale_lines_ok (sc_items sale_data) d"
      by simp_all
    from create_sale_success[OF a, of u now] show "\<exists>sale db' new_items.
       create_sale sale_data u now (open_session d) = (Inr sale, db') \<and>
       committed db' = pending db' \<and>
       sales (committed db') = sales d @ [sale] \<and>
       sale_items (committed db') = sale_items d @ new_items \<and>
       map si_sale_id new_items = map (\<lambda>item. sale_id sale) (sc_items sale_data) \<and>
       map si_product_id new_items = map sic_product_id (sc_items sale_data) \<and>
       map si_quantity new_items = map sic_quantity (sc_items sale_data) \<and>
       map (\<lambda>r. Some (si_unit_price r)) new_items =
         map (\<lambda>item. current_price (sic_product_id item) d) (sc_items sale_data) \<and>
       map si_subtotal new_items = map (\<lambda>r. si_unit_price r * of_int (si_quantity r)) new_items \<and>
       sale_total_amount sale = sum_list (map si_subtotal new_items)"
      by blast
  qed
qed

theorem purchase_and_sale_subtotals_witness:
  "valid_PurchaseCreate (example_purchase [(1, 4, 15 / 2), (2, 1, 3)]) \<and>
   list_all (\<lambda>item. product_exists (pic_product_id item) example_database)
     (puc_items (example_purchase [(1, 4, 15 / 2), (2, 1, 3)])) \<and>
   current_price 1 example_database = Some 10 \<and>
   fst (create_purchase (example_purchase [(1, 4, 15 / 2), (2, 1, 3)]) 7 300
          (open_session example_database))
     = Inr \<lparr>pu_id = 1, pu_supplier_name = ''S'', pu_total_amount = 33, pu_reference = None,
            pu_created_by = 7\<rparr> \<and>
   purchases (committed (snd (create_purchase (example_purchase [(1, 4, 15 / 2), (2, 1, 3)]) 7 300
        (open_session example_database))))
     = [\<lparr>pu_id = 1, pu_supplier_name = ''S'', pu_total_amount = 33, pu_reference = None,
            pu_created_by = 7\<rparr>] \<and>
   map (\<lambda>r. (pi_quantity r, pi_unit_price r, pi_subtotal r))
     (purchase_items (committed (snd (create_purchase
        (example_purchase [(1, 4, 15 / 2), (2, 1, 3)]) 7 300 (open_session example_database)))))
     = [(4, 15 / 2, 30), (1, 3, 3)] \<and>
   map sm_quantity_change
     (stock_movements (committed (snd (create_purchase
        (example_purchase [(1, 4, 15 / 2), (2, 1, 3)]) 7 300 (open_session example_database)))))
     = [3, 4, 4, 1] \<and>
   valid_SaleCreate (example_sale [(1, 2), (2, 1)]) \<and>
   sale_lines_ok (sc_items (example_sale [(1, 2), (2, 1)])) example_database \<and>
   sales (committed (snd (create_sale (example_sale [(1, 2), (2, 1)]) 7 300
        (open_session example_database))))
     = [\<lparr>sale_id = 1, sale_customer_name = None, sale_total_amount = 25,
          sale_payment_method = ''efectivo'', sale_created_by = 7\<rparr>] \<and>
   map (\<lambda>r. (si_quantity r, si_unit_price r, si_subtotal r))
     (sale_items (committed (snd (create_sale (example_sale [(1, 2), (2, 1)]) 7 300
        (open_session example_database)))))
     = [(2, 10, 20), (1, 5, 5)]"
  using purchase_and_sale_subtotals
    [of "example_purchase [(1, 4, 15 / 2), (2, 1, 3)]" example_database 7 300
        "example_sale [(1, 2), (2, 1)]"]
  by (simp add: create_purchase_def create_sale_def example_purchase_def example_sale_def
        example_database_def open_session_def product_by_id_def Let_def session_ops next_id_def
        valid_PurchaseCreate_def valid_PurchaseItemCreate_def valid_SaleCreate_def
        valid_SaleItemCreate_def product_exists_def current_price_def sale_lines_ok_def
        requested_def)

subsection \<open>The two commits of product creation (C7)\<close>

text \<open>
  C7. \<^verbatim>\<open>create_product\<close> commits twice: the first commit makes the product durable with
  its starting quantity and no movement, the second adds the \<open>inventario_inicial\<close>
  movement. For a product created with quantity 5 in an empty store, the first committed
  state has quantity 5 and no movement, and is not a consistent ledger.
\<close>

theorem create_product_commits_twice:
  "map (\<lambda>d. (map p_quantity (products d), map sm_quantity_change (stock_movements d)))
     (commit_log (snd (create_product (example_product ''A'' 5) 7 100 (open_session empty_database))))
     = [([5], []), ([5], [5])] \<and>
   \<not> ledger_consistent
       (hd (commit_log (snd (create_product (example_product ''A'' 5) 7 100
          (open_session empty_database)))))"
  by (simp add: create_product_def example_product_def open_session_def empty_database_def
        product_by_name_def Let_def session_ops next_id_def ledger_consistent_def
        movement_total_def)

subsection \<open>Manual adjustment (C8)\<close>

text \<open>
  C8. A manual adjustment that is accepted (the product exists, the name is not taken,
  neither name nor price is an explicit null) and that carries the new quantity \<open>q\<close>
  returns the product with quantity \<open>q\<close>, stores it and commits. When \<open>q\<close> differs from the
  old quantity it appends exactly one movement, of kind \<open>ajuste\<close>, with delta \<open>q\<close> minus the
  old quantity and the note \<open>Ajuste manual: old -> q\<close>; when \<open>q\<close> equals the old quantity it
  appends no movement.
\<close>

theorem manual_adjustment:
  assumes "product_by_id product_id db = Some product"
    and "upd_quantity product_data = Given (Some q)"
    and "\<not> name_taken product_data product db"
    and "upd_name product_data \<noteq> Given None" and "upd_price product_data \<noteq> Given None"
  shows "\<exists>db'.
     update_product product_id product_data u now db = (Inr (setattrs product_data product), db') \<and>
     p_quantity (setattrs product_data product) = q \<and>
     product_by_id product_id db' = Some (setattrs product_data product) \<and>
     committed db' = pending db' \<and>
     stock_movements (pending db') = stock_movements (pending db) @
       (if q = p_quantity product then []
        else [\<lparr>sm_id = next_id (map sm_id (stock_movements (pending db))),
               sm_product_id = product_id,
               sm_quantity_change = q - p_quantity product,
               sm_movement_type = ''ajuste'',
               sm_reference = None,
               sm_notes = Some (''Ajuste manual: '' @ str_int (p_quantity product)
                                 @ '' -> '' @ str_int q),
               sm_created_by = Some u,
               sm_movement_date = now\<rparr>])"
proof -
  from assms(1) have pid: "p_id product = product_id"
    by (auto simp: product_by_id_def find_Some_iff)
  have fnd: "find (\<lambda>r. p_id r = product_id)
               (map (\<lambda>r. if p_id r = product_id then setattrs product_data r else r)
                  (products (pending db))) = Some (setattrs product_data product)"
    using assms(1) pid by (simp add: find_update_row product_by_id_def)
  show ?thesis
  proof (cases "q = p_quantity product")
    case True
    then show ?thesis
      using assms pid fnd
      by (simp add: update_product_def commit_product_def Let_def session_ops product_by_id_def
            setattrs_def)
  next
    case False
    then show ?thesis
      using assms pid fnd
      by (simp add: update_product_def commit_product_def Let_def session_ops product_by_id_def
            setattrs_def)
  qed
qed

theorem manual_adjustment_witness:
  "map sm_quantity_change (stock_movements (pending (snd
      (update_product 1 (example_adjustment 3) 7 300 (open_session example_database))))) = [3, 4] \<and>
   map (\<lambda>m. (sm_quantity_change m, sm_movement_type m, sm_notes m))
     (drop 2 (stock_movements (pending (snd
      (update_product 1 (example_adjustment 10) 7 300 (open_session example_database))))))
     = [(7, ''ajuste'', Some ''Ajuste manual: 3 -> 10'')] \<and>
   map_option p_quantity (product_by_id 1 (snd
      (update_product 1 (example_adjustment 10) 7 300 (open_session example_database)))) = Some 10"
  using manual_adjustment[of 1 "open_session example_database"
          "\<lparr>p_id = 1, p_name = ''A'', p_description = None, p_price = 10, p_quantity = 3\<rparr>"
          "example_adjustment 3" 3 7 300]
        manual_adjustment[of 1 "open_session example_database"
          "\<lparr>p_id = 1, p_name = ''A'', p_description = None, p_price = 10, p_quantity = 3\<rparr>"
          "example_adjustment 10" 10 7 300]
  by (simp add: update_product_def commit_product_def Let_def session_ops product_by_id_def
        setattrs_def name_taken_def example_adjustment_def example_database_def open_session_def
        str_int_def str_nat.simps digit_char_def)

subsection \<open>The movement history (C9)\<close>




subsection \<open>Several lines of one product (C10)\<close>

text \<open>
  C10. The stock check of a line sees the quantity as the preceding lines of the same
  sale have left it. So a sale (valid, with at least one line) is recorded if and only if
  every line names a product of the table whose quantity at the start covers the sum of
  the quantities of all the lines of that product; and when all the products exist but
  one of them does not cover its lines, the sale fails with \<open>InsufficientStock\<close>. The
  witness is the sale of 2 and 2 of product A against a quantity of 3.
\<close>

theorem sale_succeeds_iff_stock_covers_lines:
  assumes "valid_SaleCreate sale_data" and "sc_items sale_data \<noteq> []"
  shows "((\<exists>sale db'. create_sale sale_data u now (open_session d) = (Inr sale, db'))
            \<longleftrightarrow> sale_lines_ok (sc_items sale_data) d) \<and>
         (list_all (\<lambda>item. product_exists (sic_product_id item) d) (sc_items sale_data) \<and>
          \<not> sale_lines_ok (sc_items sale_data) d
            \<longrightarrow> fst (create_sale sale_data u now (open_session d)) = Inl InsufficientStock)"
proof -
  define n where "n = next_id (map sale_id (sales (pending (open_session d))))"
  define db1 where "db1 = add_sale \<lparr>sale_id = n,
                sale_customer_name = sc_customer_name sale_data, sale_total_amount = 0,
                sale_payment_method = sc_payment_method sale_data, sale_created_by = u\<rparr>
                (open_session d)"
  have prods: "products (pending db1) = products d"
    by (simp add: db1_def add_sale_def open_session_def)
  have ok: "sale_lines_ok (sc_items sale_data) (pending db1) = sale_lines_ok (sc_items sale_data) d"
    using prods by (simp add: sale_lines_ok_def)
  have ex: "product_exists j (pending db1) = product_exists j d" for j
    using prods by (simp add: product_exists_def)
  note iff = sale_lines_succeed_iff[OF valid_sale_nonneg[OF assms(1)], of n u now 0 db1]
  show ?thesis
  proof (cases "sale_lines n u now (sc_items sale_data) 0 db1")
    case (Pair res db2)
    show ?thesis
    proof (cases res)
      case (Inl e)
      with Pair have fail: "sale_lines n u now (sc_items sale_data) 0 db1 = (Inl e, db2)"
        by simp
      from fail have cs: "create_sale sale_data u now (open_session d) = (Inl e, db2)"
        unfolding db1_def n_def by (rule create_sale_error[OF assms(2)])
      from fail iff have "\<not> sale_lines_ok (sc_items sale_data) d" by (simp add: ok)
      moreover have "e = InsufficientStock"
        if "list_all (\<lambda>item. product_exists (sic_product_id item) d) (sc_items sale_data)"
        using sale_lines_error_kind[OF _ fail] that by (simp add: ex)
      ultimately show ?thesis using cs by simp
    next
      case (Inr t)
      with Pair have succ: "sale_lines n u now (sc_items sale_data) 0 db1 = (Inr t, db2)"
        by simp
      from succ have "\<exists>sale db'. create_sale sale_data u now (open_session d) = (Inr sale, db')"
        unfolding db1_def n_def by (auto dest: create_sale_result[OF assms(2)])
      moreover from succ iff have "sale_lines_ok (sc_items sale_data) d" by (auto simp: ok)
      ultimately show ?thesis by simp
    qed
  qed
qed

theorem sale_succeeds_iff_stock_covers_lines_witness:
  "valid_SaleCreate (example_sale [(1, 2), (1, 2)]) \<and>
   sc_items (example_sale [(1, 2), (1, 2)]) \<noteq> [] \<and>
   list_all (\<lambda>item. product_exists (sic_product_id item) example_database)
     (sc_items (example_sale [(1, 2), (1, 2)])) \<and>
   requested 1 (sc_items (example_sale [(1, 2), (1, 2)])) = 4 \<and>
   \<not> sale_lines_ok (sc_items (example_sale [(1, 2), (1, 2)])) example_database \<and>
   \<not> (\<exists>sale db'. create_sale (example_sale [(1, 2), (1, 2)]) 7 300
         (open_session example_database) = (Inr sale, db')) \<and>
   fst (create_sale (example_sale [(1, 2), (1, 2)]) 7 300 (open_session example_database))
     = Inl InsufficientStock"
proof -
  have v: "valid_SaleCreate (example_sale [(1, 2), (1, 2)])"
    by (simp add: valid_SaleCreate_def valid_SaleItemCreate_def example_sale_def)
  have ne: "sc_items (example_sale [(1, 2), (1, 2)]) \<noteq> []"
    by (simp add: example_sale_def)
  have ex: "list_all (\<lambda>item. product_exists (sic_product_id item) example_database)
     (sc_items (example_sale [(1, 2), (1, 2)]))"
    by (simp add: example_sale_def example_database_def product_exists_def)
  have rq: "requested 1 (sc_items (example_sale [(1, 2), (1, 2)])) = 4"
    by (simp add: requested_def example_sale_def)
  have n: "\<not> sale_lines_ok (sc_items (example_sale [(1, 2), (1, 2)])) example_database"
    by (simp add: sale_lines_ok_def requested_def example_sale_def example_database_def)
  show ?thesis
    using sale_succeeds_iff_stock_covers_lines[OF v ne, of 7 300 example_database] v ne ex rq n
    by simp
qed

end
